theory Spec2Isabelle
  imports Complex_Main
begin

section \<open>JavaScript values used by lib/schema/date.js\<close>

text \<open>
  A JavaScript Number is NaN, an infinity or a finite value. The finite values are
  modelled as rationals, which contain every finite double; the module only compares
  numbers and hands them to the Date constructor, and never does arithmetic on them.
  Negative zero is not told apart from zero (no operation used here tells them apart).
\<close>

datatype jsnum = NaN | NegInf | Fin rat | PosInf

type_synonym addr = nat

text \<open>
  The heap is the next unused object address: \<open>new Date(...)\<close> and a function
  expression take the address and advance it. An object is identified by its address, so
  \<open>===\<close> on objects is equality of addresses.
\<close>

type_synonym heap = nat

text \<open>
  The values a caller can hand to the module. \<open>JDate a tv\<close> is a Date instance at
  address \<open>a\<close> whose time value is \<open>tv\<close> (\<open>None\<close> is the invalid date, whose
  \<open>valueOf()\<close> is NaN). A Date and a wrapper are mutable (\<open>setTime\<close>): a value handed
  to a function is the object as it reads when the call is made, and a function that
  keeps the reference reads the object again when it runs (see \<open>reread\<close>). The module
  itself never mutates one. \<open>JNumberObj\<close>, \<open>JBooleanObj\<close> and \<open>JStringObj\<close> are the boxed
  wrappers (\<open>new Number(n)\<close> ...). \<open>JWrapper a n\<close> is a third-party temporal wrapper
  (moment.js) at address \<open>a\<close> whose \<open>valueOf()\<close> returns the number \<open>n\<close>. \<open>JPlain\<close> is an ordinary
  object literal (it inherits \<open>Object.prototype.valueOf\<close>, which returns the object itself,
  and \<open>toString\<close>). \<open>JBare\<close> is an object without prototype
  (\<open>Object.create(null)\<close>): it has neither \<open>valueOf\<close> nor \<open>toString\<close>.
  \<open>JDateNow\<close> is the function \<open>Date.now\<close>. Symbols and BigInts are not represented.
\<close>

datatype jsval =
    JUndefined
  | JNull
  | JBool bool
  | JNum jsnum
  | JStr string
  | JDate addr "int option"
  | JNumberObj jsnum
  | JBooleanObj bool
  | JStringObj string
  | JWrapper addr jsnum
  | JPlain
  | JBare
  | JDateNow

text \<open>
  What the module throws: \<open>new CastError('date', value, this.path)\<close>, a TypeError of the
  runtime (a property read on null or undefined, a call of something that is no function,
  a failed conversion to a primitive), and \<open>new Error(message)\<close>.
\<close>

datatype error = CastError string jsval string | TypeError | Error string

text \<open>
  What the module takes from its host runtime and from the rest of the library (all of it
  outside lib/schema/date.js), as parameters: the runtime's conversion of a non-empty
  string to a number (the StringToNumber grammar), \<open>Date.parse\<close>,
  \<open>Date.prototype.toString\<close> on a valid date, and the two default messages
  \<open>MongooseError.messages.Date.min\<close> and \<open>MongooseError.messages.Date.max\<close>.
\<close>

record env =
  StringToNumber :: "string \<Rightarrow> jsnum"
  Date_parse :: "string \<Rightarrow> jsnum"
  Date_toString :: "int \<Rightarrow> string"
  messages_Date_min :: string
  messages_Date_max :: string

subsection \<open>Operators of the language\<close>

fun typeof :: "jsval \<Rightarrow> string" where
  "typeof JUndefined = ''undefined''"
| "typeof JNull = ''object''"
| "typeof (JBool b) = ''boolean''"
| "typeof (JNum n) = ''number''"
| "typeof (JStr s) = ''string''"
| "typeof JDateNow = ''function''"
| "typeof v = ''object''"

text \<open>\<open>value instanceof Date\<close> and \<open>value instanceof Number\<close>.\<close>

fun instanceof_Date :: "jsval \<Rightarrow> bool" where
  "instanceof_Date (JDate a tv) = True"
| "instanceof_Date v = False"

fun instanceof_Number :: "jsval \<Rightarrow> bool" where
  "instanceof_Number (JNumberObj n) = True"
| "instanceof_Number v = False"

text \<open>ToBoolean, as \<open>if (value)\<close> applies it.\<close>

fun truthy :: "jsval \<Rightarrow> bool" where
  "truthy JUndefined = False"
| "truthy JNull = False"
| "truthy (JBool b) = b"
| "truthy (JNum n) = (n \<noteq> NaN \<and> n \<noteq> Fin 0)"
| "truthy (JStr s) = (s \<noteq> [])"
| "truthy v = True"

text \<open>The number a Date's \<open>valueOf()\<close> returns.\<close>

fun time_number :: "int option \<Rightarrow> jsnum" where
  "time_number None = NaN"
| "time_number (Some t) = Fin (of_int t)"

text \<open>
  The method call \<open>v.valueOf()\<close>: a TypeError on undefined and null (the property read
  fails) and on an object without the method.
\<close>

fun js_valueOf :: "jsval \<Rightarrow> error + jsval" where
  "js_valueOf JUndefined = Inl TypeError"
| "js_valueOf JNull = Inl TypeError"
| "js_valueOf (JDate a tv) = Inr (JNum (time_number tv))"
| "js_valueOf (JNumberObj n) = Inr (JNum n)"
| "js_valueOf (JBooleanObj b) = Inr (JBool b)"
| "js_valueOf (JStringObj s) = Inr (JStr s)"
| "js_valueOf (JWrapper a n) = Inr (JNum n)"
| "js_valueOf JBare = Inl TypeError"
| "js_valueOf v = Inr v"

text \<open>\<open>typeof value.valueOf === 'function'\<close>; the property read fails on undefined and null.\<close>

fun has_valueOf :: "jsval \<Rightarrow> error + bool" where
  "has_valueOf JUndefined = Inl TypeError"
| "has_valueOf JNull = Inl TypeError"
| "has_valueOf JBare = Inr False"
| "has_valueOf v = Inr True"

text \<open>
  ToPrimitive with hint number: \<open>valueOf\<close> first, then \<open>toString\<close> when \<open>valueOf\<close>
  returned an object. A plain object ends at its \<open>toString\<close>, a function at its source
  text, and an object with neither method raises a TypeError.
\<close>

fun to_primitive :: "jsval \<Rightarrow> error + jsval" where
  "to_primitive (JDate a tv) = Inr (JNum (time_number tv))"
| "to_primitive (JNumberObj n) = Inr (JNum n)"
| "to_primitive (JBooleanObj b) = Inr (JBool b)"
| "to_primitive (JStringObj s) = Inr (JStr s)"
| "to_primitive (JWrapper a n) = Inr (JNum n)"
| "to_primitive JPlain = Inr (JStr ''[object Object]'')"
| "to_primitive JDateNow = Inr (JStr ''function now() { [native code] }'')"
| "to_primitive JBare = Inl TypeError"
| "to_primitive v = Inr v"

text \<open>\<open>Number(s)\<close> on a string: the empty string is 0, the rest is the runtime's grammar.\<close>

definition Number_str :: "env \<Rightarrow> string \<Rightarrow> jsnum" where
  "Number_str E s = (if s = [] then Fin 0 else StringToNumber E s)"

text \<open>
  ToNumber: an object is first converted to a primitive. (\<open>to_primitive\<close> only returns
  primitives, so the last case is never taken.)
\<close>

definition to_number :: "env \<Rightarrow> jsval \<Rightarrow> error + jsnum" where
  "to_number E v =
     (case to_primitive v of
        Inl e \<Rightarrow> Inl e
      | Inr JUndefined \<Rightarrow> Inr NaN
      | Inr JNull \<Rightarrow> Inr (Fin 0)
      | Inr (JBool b) \<Rightarrow> Inr (Fin (if b then 1 else 0))
      | Inr (JNum n) \<Rightarrow> Inr n
      | Inr (JStr s) \<Rightarrow> Inr (Number_str E s)
      | Inr p \<Rightarrow> Inl TypeError)"

text \<open>
  \<open>x < y\<close> on numbers, with \<open>None\<close> for the undefined result a NaN operand gives.
\<close>

fun num_lessThan :: "jsnum \<Rightarrow> jsnum \<Rightarrow> bool option" where
  "num_lessThan NaN y = None"
| "num_lessThan x NaN = None"
| "num_lessThan PosInf y = Some False"
| "num_lessThan x PosInf = Some True"
| "num_lessThan x NegInf = Some False"
| "num_lessThan NegInf y = Some True"
| "num_lessThan (Fin a) (Fin b) = Some (a < b)"

text \<open>Strings compare by code units, the shorter one first when it is a prefix.\<close>

fun str_lessThan :: "string \<Rightarrow> string \<Rightarrow> bool" where
  "str_lessThan [] [] = False"
| "str_lessThan [] (y # ys) = True"
| "str_lessThan (x # xs) [] = False"
| "str_lessThan (x # xs) (y # ys) =
     (if (of_char x :: nat) < of_char y then True
      else if (of_char y :: nat) < of_char x then False
      else str_lessThan xs ys)"

text \<open>
  The abstract relational comparison \<open>x < y\<close> of two values: both are converted to
  primitives, \<open>x\<close> first when \<open>leftFirst\<close> holds and \<open>y\<close> first otherwise; two strings
  compare as strings, anything else as numbers. \<open>None\<close> is the undefined result.
\<close>

definition js_isLessThan :: "env \<Rightarrow> jsval \<Rightarrow> jsval \<Rightarrow> bool \<Rightarrow> error + bool option" where
  "js_isLessThan E x y leftFirst =
     (case (if leftFirst then
              (case to_primitive x of
                 Inl e \<Rightarrow> Inl e
               | Inr px \<Rightarrow> (case to_primitive y of Inl e \<Rightarrow> Inl e | Inr py \<Rightarrow> Inr (px, py)))
            else
              (case to_primitive y of
                 Inl e \<Rightarrow> Inl e
               | Inr py \<Rightarrow> (case to_primitive x of Inl e \<Rightarrow> Inl e | Inr px \<Rightarrow> Inr (px, py))))
      of
        Inl e \<Rightarrow> Inl e
      | Inr (JStr a, JStr b) \<Rightarrow> Inr (Some (str_lessThan a b))
      | Inr (px, py) \<Rightarrow>
          (case to_number E px of
             Inl e \<Rightarrow> Inl e
           | Inr nx \<Rightarrow>
               (case to_number E py of
                  Inl e \<Rightarrow> Inl e
                | Inr ny \<Rightarrow> Inr (num_lessThan nx ny))))"

text \<open>
  \<open>x >= y\<close> is false when \<open>x < y\<close> is true or undefined; \<open>x <= y\<close> likewise from
  \<open>y < x\<close>, its operands still converted from left to right.
\<close>

definition js_ge :: "env \<Rightarrow> jsval \<Rightarrow> jsval \<Rightarrow> error + bool" where
  "js_ge E x y =
     (case js_isLessThan E x y True of
        Inl e \<Rightarrow> Inl e
      | Inr None \<Rightarrow> Inr False
      | Inr (Some r) \<Rightarrow> Inr (\<not> r))"

definition js_le :: "env \<Rightarrow> jsval \<Rightarrow> jsval \<Rightarrow> error + bool" where
  "js_le E x y =
     (case js_isLessThan E y x False of
        Inl e \<Rightarrow> Inl e
      | Inr None \<Rightarrow> Inr False
      | Inr (Some r) \<Rightarrow> Inr (\<not> r))"

text \<open>\<open>isNaN\<close> on a number.\<close>

fun isNaN :: "jsnum \<Rightarrow> bool" where
  "isNaN NaN = True"
| "isNaN n = False"

subsection \<open>The Date constructor\<close>

text \<open>
  TimeClip: a time value is an integral number of milliseconds of magnitude at most
  8.64e15; anything else is the invalid date. A finite number is truncated towards zero.
\<close>

definition trunc :: "rat \<Rightarrow> int" where
  "trunc q = (if 0 \<le> q then \<lfloor>q\<rfloor> else \<lceil>q\<rceil>)"

fun TimeClip :: "jsnum \<Rightarrow> int option" where
  "TimeClip (Fin q) = (if \<bar>q\<bar> > 8640000000000000 then None else Some (trunc q))"
| "TimeClip n = None"

text \<open>
  \<open>new Date(v)\<close> with one argument: a Date is copied, anything else is converted to a
  primitive; a string is parsed, any other primitive is converted to a number. The new
  object takes the next address.
\<close>

definition new_Date :: "env \<Rightarrow> heap \<Rightarrow> jsval \<Rightarrow> (error + jsval) \<times> heap" where
  "new_Date E h v =
     (case v of
        JDate a tv \<Rightarrow> (Inr (JDate h tv), Suc h)
      | _ \<Rightarrow>
          (case to_primitive v of
             Inl e \<Rightarrow> (Inl e, h)
           | Inr (JStr s) \<Rightarrow> (Inr (JDate h (TimeClip (Date_parse E s))), Suc h)
           | Inr p \<Rightarrow>
               (case to_number E p of
                  Inl e \<Rightarrow> (Inl e, h)
                | Inr n \<Rightarrow> (Inr (JDate h (TimeClip n)), Suc h))))"

section \<open>The field type SchemaDate\<close>

text \<open>
  What the mutable objects hold at some moment: the time value of the Date at an address,
  and the number of the wrapper at an address. The caller may change either between two
  calls into the module (\<open>d.setTime(NaN)\<close>).
\<close>

record store =
  date_value :: "addr \<Rightarrow> int option"
  wrapper_value :: "addr \<Rightarrow> jsnum"

text \<open>A value kept by reference, as it reads in the store now.\<close>

fun reread :: "store \<Rightarrow> jsval \<Rightarrow> jsval" where
  "reread S (JDate a tv) = JDate a (date_value S a)"
| "reread S (JWrapper a n) = JWrapper a (wrapper_value S a)"
| "reread S v = v"

text \<open>
  A validator function is a closure made by \<open>min\<close> or \<open>max\<close>: its identity is the address
  it was created at, and it closes over the bound \<open>value\<close> it was installed with (and over
  \<open>_this\<close>, the field type itself, which is passed when the closure is called). The
  closure keeps a reference: \<open>fn_value\<close> is the bound as it read at installation, and
  when the function runs it reads a Date or wrapper again from the store of that moment.
\<close>

datatype bound_kind = MinFn | MaxFn

record closure =
  fn_id :: addr
  fn_kind :: bound_kind
  fn_value :: jsval

text \<open>
  An entry of the validator chain: \<open>{validator, message, type, min}\<close> or
  \<open>{validator, message, type, max}\<close>; \<open>bound\<close> is the entry's \<open>min\<close> or \<open>max\<close> property.
\<close>

record validator_entry =
  validator :: closure
  message :: string
  type :: string
  bound :: jsval

record SchemaDate =
  path :: string
  validators :: "validator_entry list"
  minValidator :: "closure option"
  maxValidator :: "closure option"

subsection \<open>cast\<close>

text \<open>
  \<open>SchemaDate.prototype.cast\<close>. The result is the returned value or the thrown error,
  with the heap after the call.
\<close>

definition cast :: "env \<Rightarrow> SchemaDate \<Rightarrow> heap \<Rightarrow> jsval \<Rightarrow> (error + jsval) \<times> heap" where
  "cast E this h value =
     (if value = JNull \<or> value = JUndefined \<or> value = JStr [] then (Inr JNull, h)
      else if instanceof_Date value then
        (case js_valueOf value of
           Inl e \<Rightarrow> (Inl e, h)
         | Inr n \<Rightarrow>
             (case to_number E n of
                Inl e \<Rightarrow> (Inl e, h)
              | Inr t \<Rightarrow>
                  if isNaN t then (Inl (CastError ''date'' value (path this)), h)
                  else (Inr value, h)))
      else if typeof value = ''boolean'' then
        (Inl (CastError ''date'' value (path this)), h)
      else
        (case
           (if instanceof_Number value \<or> typeof value = ''number'' then new_Date E h value
            else if (case value of
                       JStr s \<Rightarrow>
                         \<not> isNaN (Number_str E s) \<and>
                         (num_lessThan (Number_str E s) (Fin 275761) = Some False \<or>
                          num_lessThan (Number_str E s) (Fin (- 271820)) = Some True)
                     | _ \<Rightarrow> False)
            then (case to_number E value of
                    Inl e \<Rightarrow> (Inl e, h)
                  | Inr n \<Rightarrow> new_Date E h (JNum n))
            else
              (case has_valueOf value of
                 Inl e \<Rightarrow> (Inl e, h)
               | Inr True \<Rightarrow>
                   (case js_valueOf value of
                      Inl e \<Rightarrow> (Inl e, h)
                    | Inr p \<Rightarrow> new_Date E h p)
               | Inr False \<Rightarrow> new_Date E h value))
         of
           (Inl e, h') \<Rightarrow> (Inl e, h')
         | (Inr date, h') \<Rightarrow>
             (case js_valueOf date of
                Inl e \<Rightarrow> (Inl e, h')
              | Inr n \<Rightarrow>
                  (case to_number E n of
                     Inl e \<Rightarrow> (Inl e, h')
                   | Inr t \<Rightarrow>
                       if \<not> isNaN t then (Inr date, h')
                       else (Inl (CastError ''date'' value (path this)), h')))))"

text \<open>\<open>SchemaDate.prototype.checkRequired\<close>.\<close>

definition checkRequired :: "jsval \<Rightarrow> bool" where
  "checkRequired value = instanceof_Date value"

subsection \<open>min and max\<close>

text \<open>
  \<open>msg.replace(/{MIN}/, rep)\<close>: the first occurrence of the token is replaced, and a
  message without the token is left as it is. (The replacement texts used here,
  \<open>'Date.now()'\<close> and a date's string form, are taken literally.)
\<close>

fun replace_first :: "string \<Rightarrow> string \<Rightarrow> string \<Rightarrow> string" where
  "replace_first pat rep [] = (if pat = [] then rep else [])"
| "replace_first pat rep (c # cs) =
     (if take (length pat) (c # cs) = pat then rep @ drop (length pat) (c # cs)
      else c # replace_first pat rep cs)"

text \<open>
  \<open>this.cast(value).toString()\<close>: \<open>cast\<close> returns null or a valid Date; the method call
  on null raises a TypeError.
\<close>

fun cast_toString :: "env \<Rightarrow> jsval \<Rightarrow> error + string" where
  "cast_toString E (JDate a (Some t)) = Inr (Date_toString E t)"
| "cast_toString E (JDate a None) = Inr ''Invalid Date''"
| "cast_toString E v = Inl TypeError"

text \<open>
  \<open>SchemaDate.prototype.min\<close>. The call returns \<open>this\<close>, here the updated field type, or
  throws; a throw leaves the field type as the statements before it made it, so the
  state is returned in both cases. The filter compares validator functions by identity.
\<close>

definition min_SchemaDate ::
  "env \<Rightarrow> SchemaDate \<Rightarrow> heap \<Rightarrow> jsval \<Rightarrow> string option \<Rightarrow> (error + unit) \<times> SchemaDate \<times> heap" where
  "min_SchemaDate E this h value msg_arg =
     (let this1 =
        (case minValidator this of
           None \<Rightarrow> this
         | Some m \<Rightarrow>
             this\<lparr>validators := filter (\<lambda>v. fn_id (validator v) \<noteq> fn_id m) (validators this)\<rparr>)
      in
        if truthy value then
          (let msg = (case msg_arg of
                        None \<Rightarrow> messages_Date_min E
                      | Some m \<Rightarrow> if m = [] then messages_Date_min E else m)
           in
             (case
                (if value = JDateNow then (Inr ''Date.now()'', h)
                 else (case cast E this1 h value of
                         (Inl e, h') \<Rightarrow> (Inl e, h')
                       | (Inr d, h') \<Rightarrow> (cast_toString E d, h')))
              of
                (Inl e, h') \<Rightarrow> (Inl e, this1, h')
              | (Inr rep, h') \<Rightarrow>
                  (let f = \<lparr>fn_id = h', fn_kind = MinFn, fn_value = value\<rparr> in
                     (Inr (),
                      this1\<lparr>minValidator := Some f,
                            validators := validators this1 @
                              [\<lparr>validator = f,
                                message = replace_first ''{MIN}'' rep msg,
                                type = ''min'',
                                bound = value\<rparr>]\<rparr>,
                      Suc h'))))
        else (Inr (), this1, h))"

text \<open>\<open>SchemaDate.prototype.max\<close>.\<close>

definition max_SchemaDate ::
  "env \<Rightarrow> SchemaDate \<Rightarrow> heap \<Rightarrow> jsval \<Rightarrow> string option \<Rightarrow> (error + unit) \<times> SchemaDate \<times> heap" where
  "max_SchemaDate E this h value msg_arg =
     (let this1 =
        (case maxValidator this of
           None \<Rightarrow> this
         | Some m \<Rightarrow>
             this\<lparr>validators := filter (\<lambda>v. fn_id (validator v) \<noteq> fn_id m) (validators this)\<rparr>)
      in
        if truthy value then
          (let msg = (case msg_arg of
                        None \<Rightarrow> messages_Date_max E
                      | Some m \<Rightarrow> if m = [] then messages_Date_max E else m)
           in
             (case
                (if value = JDateNow then (Inr ''Date.now()'', h)
                 else (case cast E this1 h value of
                         (Inl e, h') \<Rightarrow> (Inl e, h')
                       | (Inr d, h') \<Rightarrow> (cast_toString E d, h')))
              of
                (Inl e, h') \<Rightarrow> (Inl e, this1, h')
              | (Inr rep, h') \<Rightarrow>
                  (let f = \<lparr>fn_id = h', fn_kind = MaxFn, fn_value = value\<rparr> in
                     (Inr (),
                      this1\<lparr>maxValidator := Some f,
                            validators := validators this1 @
                              [\<lparr>validator = f,
                                message = replace_first ''{MAX}'' rep msg,
                                type = ''max'',
                                bound = value\<rparr>]\<rparr>,
                      Suc h'))))
        else (Inr (), this1, h))"

subsection \<open>The validator functions\<close>

text \<open>
  The body of the function \<open>min\<close> installs, called on \<open>val\<close> when the clock reads \<open>now\<close>
  (\<open>Date.now()\<close> returns the clock): \<open>value\<close> is the bound the closure was created
  with as it reads at this call, \<open>self\<close> the field type the source calls \<open>_this\<close>.
\<close>

definition minValidator_fn ::
  "env \<Rightarrow> SchemaDate \<Rightarrow> jsval \<Rightarrow> int \<Rightarrow> heap \<Rightarrow> jsval \<Rightarrow> (error + bool) \<times> heap" where
  "minValidator_fn E self value now h val =
     (case (if value = JDateNow then (Inr (JNum (Fin (of_int now))), h)
            else cast E self h value) of
        (Inl e, h') \<Rightarrow> (Inl e, h')
      | (Inr lo, h') \<Rightarrow>
          if val = JNull then (Inr True, h')
          else
            (case js_valueOf val of
               Inl e \<Rightarrow> (Inl e, h')
             | Inr x \<Rightarrow>
                 (case js_valueOf lo of
                    Inl e \<Rightarrow> (Inl e, h')
                  | Inr y \<Rightarrow> (js_ge E x y, h'))))"

text \<open>The body of the function \<open>max\<close> installs.\<close>

definition maxValidator_fn ::
  "env \<Rightarrow> SchemaDate \<Rightarrow> jsval \<Rightarrow> int \<Rightarrow> heap \<Rightarrow> jsval \<Rightarrow> (error + bool) \<times> heap" where
  "maxValidator_fn E self value now h val =
     (case (if value = JDateNow then (Inr (JNum (Fin (of_int now))), h)
            else cast E self h value) of
        (Inl e, h') \<Rightarrow> (Inl e, h')
      | (Inr hi, h') \<Rightarrow>
          if val = JNull then (Inr True, h')
          else
            (case js_valueOf val of
               Inl e \<Rightarrow> (Inl e, h')
             | Inr x \<Rightarrow>
                 (case js_valueOf hi of
                    Inl e \<Rightarrow> (Inl e, h')
                  | Inr y \<Rightarrow> (js_le E x y, h'))))"

text \<open>
  Calling a validator function of the chain when the mutable objects hold what the store
  \<open>S\<close> says: the body runs on the closed-over bound as it reads then.
\<close>

definition call_validator ::
  "env \<Rightarrow> SchemaDate \<Rightarrow> store \<Rightarrow> closure \<Rightarrow> int \<Rightarrow> heap \<Rightarrow> jsval \<Rightarrow> (error + bool) \<times> heap" where
  "call_validator E self S f now h val =
     (case fn_kind f of
        MinFn \<Rightarrow> minValidator_fn E self (reread S (fn_value f)) now h val
      | MaxFn \<Rightarrow> maxValidator_fn E self (reread S (fn_value f)) now h val)"

subsection \<open>A field type and the calls made on it\<close>

text \<open>
  Modelled from the spec: the constructor \<open>SchemaDate(key, options)\<close> only calls the base
  constructor \<open>SchemaType\<close>, which is in lib/schematype.js and not in this module. By the
  spec (4.1) it binds the field path, starts with an empty validator chain and no bound
  validator, and registers the configured \<open>min\<close> and \<open>max\<close> by calling the setters.
\<close>

definition new_SchemaDate :: "string \<Rightarrow> SchemaDate" where
  "new_SchemaDate key = \<lparr>path = key, validators = [], minValidator = None, maxValidator = None\<rparr>"

datatype setter_call = CallMin jsval "string option" | CallMax jsval "string option"

text \<open>
  One setter call, and a sequence of them. A call that throws leaves the field type as
  it was at the throw, and the calls after it go on from there.
\<close>

fun do_call :: "env \<Rightarrow> SchemaDate \<times> heap \<Rightarrow> setter_call \<Rightarrow> SchemaDate \<times> heap" where
  "do_call E (this, h) (CallMin value msg) = snd (min_SchemaDate E this h value msg)"
| "do_call E (this, h) (CallMax value msg) = snd (max_SchemaDate E this h value msg)"

definition do_calls :: "env \<Rightarrow> SchemaDate \<times> heap \<Rightarrow> setter_call list \<Rightarrow> SchemaDate \<times> heap" where
  "do_calls E st cs = foldl (do_call E) st cs"

text \<open>The entries of a chain that carry the tag \<open>type\<close>.\<close>

definition entries_of :: "string \<Rightarrow> SchemaDate \<Rightarrow> validator_entry list" where
  "entries_of ty this = filter (\<lambda>v. type v = ty) (validators this)"

subsection \<open>castForQuery\<close>

text \<open>
  A conditional handler is called as \<open>handler.call(this, val)\<close>.
\<close>

type_synonym handler = "env \<Rightarrow> SchemaDate \<Rightarrow> heap \<Rightarrow> jsval \<Rightarrow> (error + jsval) \<times> heap"

definition handleSingle :: handler where
  "handleSingle E this h val = cast E this h val"

text \<open>
  Modelled from the spec: \<open>utils.options(defaults, options)\<close> is in lib/utils.js, not in
  this module. By the spec (4.6) the mapping is the inherited defaults extended and
  overridden by the field kind's own handlers: a key of \<open>options\<close> keeps its handler, any
  other key takes the default's.
\<close>

definition utils_options :: "(string \<rightharpoonup> handler) \<Rightarrow> (string \<rightharpoonup> handler) \<Rightarrow> (string \<rightharpoonup> handler)" where
  "utils_options defaults opts = (\<lambda>k. case opts k of Some f \<Rightarrow> Some f | None \<Rightarrow> defaults k)"

text \<open>
  \<open>SchemaDate.prototype.$conditionalHandlers\<close>; \<open>base\<close> is
  \<open>SchemaType.prototype.$conditionalHandlers\<close>, a parameter. A key maps to \<open>None\<close> when
  the property read gives undefined.
\<close>

definition conditionalHandlers :: "(string \<rightharpoonup> handler) \<Rightarrow> (string \<rightharpoonup> handler)" where
  "conditionalHandlers base =
     utils_options base
       [''$gt'' \<mapsto> handleSingle, ''$gte'' \<mapsto> handleSingle,
        ''$lt'' \<mapsto> handleSingle, ''$lte'' \<mapsto> handleSingle]"

text \<open>
  Modelled from the spec: \<open>this._castForQuery\<close> is a method of the base field type
  (lib/schematype.js), not in this module. By the spec (4.6) the single-argument form
  casts the lone value directly through \<open>cast\<close>.
\<close>

definition castForQuery_base :: handler where
  "castForQuery_base E this h val = cast E this h val"

text \<open>
  The two call shapes of \<open>castForQuery\<close>: with one argument, and with an operator
  (a string) and a value.
\<close>

datatype arguments = Args1 jsval | Args2 string jsval

text \<open>\<open>SchemaDate.prototype.castForQuery\<close>.\<close>

definition castForQuery ::
  "env \<Rightarrow> (string \<rightharpoonup> handler) \<Rightarrow> SchemaDate \<Rightarrow> heap \<Rightarrow> arguments \<Rightarrow> (error + jsval) \<times> heap" where
  "castForQuery E base this h args =
     (case args of
        Args1 v \<Rightarrow> castForQuery_base E this h v
      | Args2 conditional val \<Rightarrow>
          (case conditionalHandlers base conditional of
             None \<Rightarrow> (Inl (Error (''Can't use '' @ conditional @ '' with Date.'')), h)
           | Some handler \<Rightarrow> handler E this h val))"

section \<open>Invariant of the validator chain\<close>

text \<open>
  A bound that resolves: the function \<open>Date.now\<close>, or a value that
  \<open>cast\<close> turns into a Date (whether it does depends neither on the field type nor on
  the heap, see \<open>cast_ok_indep\<close>).
\<close>

definition bound_ok :: "env \<Rightarrow> jsval \<Rightarrow> bool" where
  "bound_ok E value =
     (value = JDateNow \<or>
      (case fst (cast E \<lparr>path = [], validators = [], minValidator = None, maxValidator = None\<rparr> 0 value) of
         Inr d \<Rightarrow> True
       | Inl e \<Rightarrow> False))"

text \<open>
  What every sequence of \<open>min\<close> and \<open>max\<close> calls keeps true of a field type and the heap:
  an entry tagged \<open>min\<close> (\<open>max\<close>) holds the function \<open>minValidator\<close> (\<open>maxValidator\<close>)
  refers to, and there is at most one of each; every function of the chain and both
  references were created below the heap's next address; the function one reference
  names is not the function of an entry of the other kind; and every function's bound
  resolved as it read at installation.
\<close>

definition chain_inv :: "env \<Rightarrow> SchemaDate \<times> heap \<Rightarrow> bool" where
  "chain_inv E st =
     (case st of (this, h) \<Rightarrow>
        (\<forall>v \<in> set (validators this).
           (type v = ''min'' \<longrightarrow> minValidator this = Some (validator v)) \<and>
           (type v = ''max'' \<longrightarrow> maxValidator this = Some (validator v)) \<and>
           fn_id (validator v) < h \<and>
           (type v = ''max'' \<longrightarrow>
              (case minValidator this of None \<Rightarrow> True | Some m \<Rightarrow> fn_id m \<noteq> fn_id (validator v))) \<and>
           (type v = ''min'' \<longrightarrow>
              (case maxValidator this of None \<Rightarrow> True | Some m \<Rightarrow> fn_id m \<noteq> fn_id (validator v))) \<and>
           truthy (fn_value (validator v)) \<and>
           bound_ok E (fn_value (validator v))) \<and>
        length (entries_of ''min'' this) \<le> 1 \<and>
        length (entries_of ''max'' this) \<le> 1 \<and>
        (case minValidator this of None \<Rightarrow> True | Some m \<Rightarrow> fn_id m < h) \<and>
        (case maxValidator this of None \<Rightarrow> True | Some m \<Rightarrow> fn_id m < h))"

section \<open>A runtime to evaluate the model on\<close>

text \<open>
  A small runtime for concrete evaluations. It knows a few strings, on which it answers
  as V8 does (\<open>Number('1500000000000')\<close> is 1500000000000, \<open>Number('2020')\<close> is 2020,
  \<open>Date.parse('2020-01-01')\<close> and \<open>Date.parse('2020')\<close> are 1577836800000), and
  answers NaN on every other string. Its date format is a fixed text.
\<close>

definition sample_env :: env where
  "sample_env =
     \<lparr>StringToNumber =
        (\<lambda>s. if s = ''1500000000000'' then Fin 1500000000000
             else if s = ''8640000000000001'' then Fin 8640000000000001
             else if s = ''2020'' then Fin 2020
             else NaN),
      Date_parse =
        (\<lambda>s. if s = ''2020-01-01'' then Fin 1577836800000
             else if s = ''2020'' then Fin 1577836800000
             else NaN),
      Date_toString = (\<lambda>t. ''[a date]''),
      messages_Date_min = ''Path ({VALUE}) is before minimum allowed value ({MIN}).'',
      messages_Date_max = ''Path ({VALUE}) is after maximum allowed value ({MAX}).''\<rparr>"

definition sample_field :: SchemaDate where
  "sample_field = new_SchemaDate ''createdAt''"

text \<open>
  Two stores for the Date at address 7: after \<open>setTime(NaN)\<close> (every Date reads as the
  invalid date), and after \<open>setTime(2000)\<close>.
\<close>

definition store_invalid :: store where
  "store_invalid = \<lparr>date_value = (\<lambda>a. None), wrapper_value = (\<lambda>a. NaN)\<rparr>"

definition store_moved :: store where
  "store_moved = \<lparr>date_value = (\<lambda>a. if a = 7 then Some 2000 else None), wrapper_value = (\<lambda>a. NaN)\<rparr>"

section \<open>The invariant, with its references spelled out\<close>

lemma chain_inv_alt:
  "chain_inv E (this, h) =
     ((\<forall>v \<in> set (validators this).
         (type v = ''min'' \<longrightarrow> minValidator this = Some (validator v)) \<and>
         (type v = ''max'' \<longrightarrow> maxValidator this = Some (validator v)) \<and>
         fn_id (validator v) < h \<and>
         (\<forall>m. type v = ''max'' \<longrightarrow> minValidator this = Some m \<longrightarrow> fn_id m \<noteq> fn_id (validator v)) \<and>
         (\<forall>m. type v = ''min'' \<longrightarrow> maxValidator this = Some m \<longrightarrow> fn_id m \<noteq> fn_id (validator v)) \<and>
         truthy (fn_value (validator v)) \<and>
         bound_ok E (fn_value (validator v))) \<and>
      length (entries_of ''min'' this) \<le> 1 \<and>
      length (entries_of ''max'' this) \<le> 1 \<and>
      (\<forall>m. minValidator this = Some m \<longrightarrow> fn_id m < h) \<and>
      (\<forall>m. maxValidator this = Some m \<longrightarrow> fn_id m < h))"
proof -
  have a: "\<And>P. (case minValidator this of None \<Rightarrow> True | Some m \<Rightarrow> P m) =
             (\<forall>m. minValidator this = Some m \<longrightarrow> P m)"
    by (simp split: option.splits)
  have b: "\<And>P. (case maxValidator this of None \<Rightarrow> True | Some m \<Rightarrow> P m) =
             (\<forall>m. maxValidator this = Some m \<longrightarrow> P m)"
    by (simp split: option.splits)
  show ?thesis
    unfolding chain_inv_def prod.case a b by blast
qed

section \<open>Properties of cast\<close>

lemma to_number_simps [simp]:
  "to_number E JUndefined = Inr NaN"
  "to_number E JNull = Inr (Fin 0)"
  "to_number E (JBool b) = Inr (Fin (if b then 1 else 0))"
  "to_number E (JNum n) = Inr n"
  "to_number E (JStr s) = Inr (Number_str E s)"
  by (simp_all add: to_number_def)

lemma to_primitive_primitive:
  "to_primitive v = Inr p \<Longrightarrow> typeof p \<noteq> ''object'' \<or> p = JNull"
  by (cases v) auto

lemma isNaN_time_number [simp]: "isNaN (time_number tv) = (tv = None)"
  by (cases tv) simp_all

lemma trunc_0 [simp]: "trunc 0 = 0"
  by (simp add: trunc_def)

lemma trunc_1 [simp]: "trunc 1 = 1"
  by (simp add: trunc_def)

lemma trunc_of_int [simp]: "trunc (of_int i) = i"
  by (simp add: trunc_def)

lemma trunc_numeral [simp]: "trunc (numeral k) = numeral k"
  by (simp add: trunc_def)

text \<open>\<open>cast\<close> on each kind of value, in closed form.\<close>

lemma cast_JUndefined: "cast E this h JUndefined = (Inr JNull, h)"
  by (simp add: cast_def)

lemma cast_JNull: "cast E this h JNull = (Inr JNull, h)"
  by (simp add: cast_def)

lemma cast_JBool: "cast E this h (JBool b) = (Inl (CastError ''date'' (JBool b) (path this)), h)"
  by (simp add: cast_def)

lemma cast_JDate:
  "cast E this h (JDate a tv) =
     (case tv of
        Some t \<Rightarrow> (Inr (JDate a (Some t)), h)
      | None \<Rightarrow> (Inl (CastError ''date'' (JDate a None) (path this)), h))"
  by (simp add: cast_def split: option.splits)

lemma cast_JNum:
  "cast E this h (JNum n) =
     (case TimeClip n of
        Some t \<Rightarrow> (Inr (JDate h (Some t)), Suc h)
      | None \<Rightarrow> (Inl (CastError ''date'' (JNum n) (path this)), Suc h))"
  by (simp add: cast_def new_Date_def split: option.splits)

lemma cast_JNumberObj:
  "cast E this h (JNumberObj n) =
     (case TimeClip n of
        Some t \<Rightarrow> (Inr (JDate h (Some t)), Suc h)
      | None \<Rightarrow> (Inl (CastError ''date'' (JNumberObj n) (path this)), Suc h))"
  by (simp add: cast_def new_Date_def split: option.splits)

lemma cast_JStr:
  "cast E this h (JStr s) =
     (if s = [] then (Inr JNull, h)
      else
        (case (if \<not> isNaN (Number_str E s) \<and>
                  (num_lessThan (Number_str E s) (Fin 275761) = Some False \<or>
                   num_lessThan (Number_str E s) (Fin (- 271820)) = Some True)
               then TimeClip (Number_str E s)
               else TimeClip (Date_parse E s)) of
           Some t \<Rightarrow> (Inr (JDate h (Some t)), Suc h)
         | None \<Rightarrow> (Inl (CastError ''date'' (JStr s) (path this)), Suc h)))"
  by (simp add: cast_def new_Date_def split: option.splits)

lemma cast_JBooleanObj:
  "cast E this h (JBooleanObj b) = (Inr (JDate h (Some (if b then 1 else 0))), Suc h)"
  by (simp add: cast_def new_Date_def)

lemma cast_JStringObj:
  "cast E this h (JStringObj s) =
     (case TimeClip (Date_parse E s) of
        Some t \<Rightarrow> (Inr (JDate h (Some t)), Suc h)
      | None \<Rightarrow> (Inl (CastError ''date'' (JStringObj s) (path this)), Suc h))"
  by (simp add: cast_def new_Date_def split: option.splits)

lemma cast_JWrapper:
  "cast E this h (JWrapper a n) =
     (case TimeClip n of
        Some t \<Rightarrow> (Inr (JDate h (Some t)), Suc h)
      | None \<Rightarrow> (Inl (CastError ''date'' (JWrapper a n) (path this)), Suc h))"
  by (simp add: cast_def new_Date_def split: option.splits)

lemma cast_JPlain:
  "cast E this h JPlain =
     (case TimeClip (Date_parse E ''[object Object]'') of
        Some t \<Rightarrow> (Inr (JDate h (Some t)), Suc h)
      | None \<Rightarrow> (Inl (CastError ''date'' JPlain (path this)), Suc h))"
  by (simp add: cast_def new_Date_def split: option.splits)

lemma cast_JDateNow:
  "cast E this h JDateNow =
     (case TimeClip (Date_parse E ''function now() { [native code] }'') of
        Some t \<Rightarrow> (Inr (JDate h (Some t)), Suc h)
      | None \<Rightarrow> (Inl (CastError ''date'' JDateNow (path this)), Suc h))"
  by (simp add: cast_def new_Date_def split: option.splits)

lemma cast_JBare: "cast E this h JBare = (Inl TypeError, h)"
  by (simp add: cast_def new_Date_def)

lemmas cast_simps = cast_JUndefined cast_JNull cast_JBool cast_JDate cast_JNum cast_JNumberObj
  cast_JStr cast_JBooleanObj cast_JStringObj cast_JWrapper cast_JPlain cast_JDateNow cast_JBare

text \<open>
  \<open>cast\<close> returns null or a Date with a valid time value, never an invalid date; null
  only for null, undefined and the empty string.
\<close>

lemma cast_result:
  "cast E this h v = (Inr d, h') \<Longrightarrow>
     (d = JNull \<and> h' = h \<and> (v = JNull \<or> v = JUndefined \<or> v = JStr [])) \<or>
     (\<exists>a t. d = JDate a (Some t) \<and> v \<noteq> JNull \<and> v \<noteq> JUndefined \<and> v \<noteq> JStr [])"
  by (cases v) (auto simp: cast_simps split: option.splits if_splits)

text \<open>Whether \<open>cast\<close> returns, and the time value it returns, depend only on the value.\<close>

lemma cast_ok_indep:
  "cast E this h v = (Inr d, h') \<Longrightarrow> \<exists>d' h''. cast E this2 h2 v = (Inr d', h'')"
  by (cases v) (auto simp: cast_simps split: option.splits if_splits)

lemma cast_time_indep:
  "cast E this h v = (Inr (JDate a tv), h') \<Longrightarrow>
     \<exists>a' h''. cast E this2 h2 v = (Inr (JDate a' tv), h'')"
  by (cases v) (auto simp: cast_simps split: option.splits if_splits dest: sym)

lemma cast_heap_mono: "cast E this h v = (r, h') \<Longrightarrow> h \<le> h'"
  by (cases v) (auto simp: cast_simps split: option.splits if_splits)

lemma sample_env_simps [simp]:
  "Number_str sample_env ''1500000000000'' = Fin 1500000000000"
  "Number_str sample_env ''8640000000000001'' = Fin 8640000000000001"
  "Number_str sample_env ''2020'' = Fin 2020"
  "Number_str sample_env ''2020-01-01'' = NaN"
  "Date_parse sample_env ''2020-01-01'' = Fin 1577836800000"
  "Date_parse sample_env ''2020'' = Fin 1577836800000"
  "Date_toString sample_env t = ''[a date]''"
  "path sample_field = ''createdAt''"
  by (simp_all add: sample_env_def sample_field_def new_SchemaDate_def Number_str_def)

section \<open>Specified behaviour of cast\<close>

text \<open>
  C1. For every primitive boolean, \<open>cast\<close> throws a CastError with the kind \<open>date\<close>, the
  boolean itself and the field's path, and allocates nothing. The check stands before
  every coercion: the second equation shows that the Date constructor alone would have
  turned the boolean into the valid time value 1 or 0.
\<close>

theorem cast_boolean_rejected:
  "cast E this h (JBool b) = (Inl (CastError ''date'' (JBool b) (path this)), h) \<and>
   new_Date E h (JBool b) = (Inr (JDate h (Some (if b then 1 else 0))), Suc h)"
  by (simp add: cast_JBool new_Date_def)

theorem cast_boolean_rejected_witness:
  "cast sample_env sample_field 7 (JBool True) = (Inl (CastError ''date'' (JBool True) ''createdAt''), 7) \<and>
   cast sample_env sample_field 7 (JBool False) = (Inl (CastError ''date'' (JBool False) ''createdAt''), 7)"
  using cast_boolean_rejected [of sample_env sample_field 7 True]
    cast_boolean_rejected [of sample_env sample_field 7 False]
  by simp

text \<open>
  C2. For every string \<open>s\<close> for which \<open>Number(s)\<close> is not NaN and is at least 275761 or
  below -271820, \<open>cast(s)\<close> returns what \<open>cast(Number(s))\<close> returns: the new Date whose
  time value is \<open>Number(s)\<close> read as epoch milliseconds. When \<open>cast(Number(s))\<close> throws
  (the number is beyond the range of a time value), \<open>cast(s)\<close> throws the same
  CastError, carrying its own candidate \<open>s\<close>. The string is not parsed as a calendar
  string: the result is the same under any other \<open>Date.parse\<close>, although a string has
  a \<open>valueOf\<close> and would otherwise take that branch.
\<close>

theorem cast_numeric_string_as_milliseconds:
  assumes "\<not> isNaN (Number_str E s)"
    and "num_lessThan (Number_str E s) (Fin 275761) = Some False \<or>
         num_lessThan (Number_str E s) (Fin (- 271820)) = Some True"
  shows "cast E this h (JStr s) =
           (case cast E this h (JNum (Number_str E s)) of
              (Inr d, h') \<Rightarrow> (Inr d, h')
            | (Inl e, h') \<Rightarrow> (Inl (CastError ''date'' (JStr s) (path this)), h')) \<and>
         cast E this h (JStr s) =
           (case TimeClip (Number_str E s) of
              Some t \<Rightarrow> (Inr (JDate h (Some t)), Suc h)
            | None \<Rightarrow> (Inl (CastError ''date'' (JStr s) (path this)), Suc h)) \<and>
         cast (E\<lparr>Date_parse := p\<rparr>) this h (JStr s) = cast E this h (JStr s)"
proof -
  have ne: "s \<noteq> []"
    using assms by (auto simp: Number_str_def)
  have same: "Number_str (E\<lparr>Date_parse := p\<rparr>) s = Number_str E s"
    by (simp add: Number_str_def)
  show ?thesis
    using assms ne by (simp add: cast_JStr cast_JNum same split: option.splits)
qed

theorem cast_numeric_string_as_milliseconds_witness:
  "cast sample_env sample_field 3 (JStr ''1500000000000'') = (Inr (JDate 3 (Some 1500000000000)), 4) \<and>
   cast sample_env sample_field 3 (JNum (Fin 1500000000000)) = (Inr (JDate 3 (Some 1500000000000)), 4)"
  using cast_numeric_string_as_milliseconds [of sample_env "''1500000000000''" sample_field 3 "Date_parse sample_env"]
  by (simp add: cast_JNum)

text \<open>
  C3. For every Date instance, \<open>cast\<close> returns the very same object (the same address,
  and the heap is as before: nothing is constructed) when its time value is valid, and
  throws a CastError with the kind \<open>date\<close>, the candidate and the path when it is the
  invalid date.
\<close>

theorem cast_date_identity:
  "cast E this h (JDate a tv) =
     (case tv of
        Some t \<Rightarrow> (Inr (JDate a tv), h)
      | None \<Rightarrow> (Inl (CastError ''date'' (JDate a tv) (path this)), h))"
  by (simp add: cast_JDate split: option.splits)

theorem cast_date_identity_witness:
  "cast sample_env sample_field 9 (JDate 2 (Some 1000)) = (Inr (JDate 2 (Some 1000)), 9) \<and>
   cast sample_env sample_field 9 (JDate 2 None) = (Inl (CastError ''date'' (JDate 2 None) ''createdAt''), 9)"
  using cast_date_identity [of sample_env sample_field 9 2 "Some 1000"]
    cast_date_identity [of sample_env sample_field 9 2 None]
  by simp

text \<open>
  C4. \<open>cast\<close> returns null, without error and without touching the heap, on null, on
  undefined and on the empty string, and on no other value.
\<close>

theorem cast_null_undefined_empty:
  "cast E this h JNull = (Inr JNull, h) \<and>
   cast E this h JUndefined = (Inr JNull, h) \<and>
   cast E this h (JStr []) = (Inr JNull, h) \<and>
   (fst (cast E this h v) = Inr JNull) = (v = JNull \<or> v = JUndefined \<or> v = JStr [])"
proof -
  have "(fst (cast E this h v) = Inr JNull) = (v = JNull \<or> v = JUndefined \<or> v = JStr [])"
  proof
    assume "fst (cast E this h v) = Inr JNull"
    then have "cast E this h v = (Inr JNull, snd (cast E this h v))"
      by (metis prod.collapse)
    from cast_result [OF this] show "v = JNull \<or> v = JUndefined \<or> v = JStr []"
      by auto
  next
    assume "v = JNull \<or> v = JUndefined \<or> v = JStr []"
    then show "fst (cast E this h v) = Inr JNull"
      by (auto simp: cast_simps)
  qed
  then show ?thesis
    by (simp add: cast_simps)
qed

theorem cast_null_undefined_empty_witness:
  "fst (cast sample_env sample_field 0 (JNum (Fin 0))) \<noteq> Inr JNull \<and>
   cast sample_env sample_field 0 (JStr []) = (Inr JNull, 0)"
  using cast_null_undefined_empty [of sample_env sample_field 0 "JNum (Fin 0)"]
  by simp

text \<open>
  C9. A boxed Boolean is not caught by the boolean check (its \<open>typeof\<close> is not
  \<open>boolean\<close>): \<open>cast\<close> takes its \<open>valueOf()\<close> and returns a new valid Date at epoch
  millisecond 1 for \<open>new Boolean(true)\<close> and 0 for \<open>new Boolean(false)\<close>, while the
  primitive boolean of the same truth value fails.
\<close>

theorem cast_boxed_boolean:
  "cast E this h (JBooleanObj b) = (Inr (JDate h (Some (if b then 1 else 0))), Suc h) \<and>
   typeof (JBooleanObj b) \<noteq> ''boolean'' \<and>
   js_valueOf (JBooleanObj b) = Inr (JBool b) \<and>
   fst (cast E this h (JBool b)) = Inl (CastError ''date'' (JBool b) (path this))"
  by (simp add: cast_JBooleanObj cast_JBool)

theorem cast_boxed_boolean_witness:
  "cast sample_env sample_field 5 (JBooleanObj True) = (Inr (JDate 5 (Some 1)), 6) \<and>
   cast sample_env sample_field 5 (JBooleanObj False) = (Inr (JDate 5 (Some 0)), 6)"
  using cast_boxed_boolean [of sample_env sample_field 5 True]
    cast_boxed_boolean [of sample_env sample_field 5 False]
  by simp

section \<open>Specified behaviour of castForQuery\<close>

lemma conditionalHandlers_None:
  "(conditionalHandlers base c = None) =
     (c \<noteq> ''$gt'' \<and> c \<noteq> ''$gte'' \<and> c \<noteq> ''$lt'' \<and> c \<noteq> ''$lte'' \<and> base c = None)"
  by (simp add: conditionalHandlers_def utils_options_def)

lemma conditionalHandlers_ordering:
  "c = ''$gt'' \<or> c = ''$gte'' \<or> c = ''$lt'' \<or> c = ''$lte'' \<Longrightarrow>
     conditionalHandlers base c = Some handleSingle"
  by (auto simp add: conditionalHandlers_def utils_options_def)

text \<open>
  C8. In the two-argument form, \<open>castForQuery\<close> with one of the ordering operators
  \<open>$gt\<close>, \<open>$gte\<close>, \<open>$lt\<close>, \<open>$lte\<close> is \<open>cast\<close> of the value; with an operator that has no
  handler in \<open>$conditionalHandlers\<close> it throws an Error whose message names the operator
  and the field kind: \<open>Can't use <operator> with Date.\<close>
\<close>

theorem castForQuery_two_arguments:
  "(c = ''$gt'' \<or> c = ''$gte'' \<or> c = ''$lt'' \<or> c = ''$lte'' \<longrightarrow>
      castForQuery E base this h (Args2 c val) = cast E this h val) \<and>
   (conditionalHandlers base c = None \<longrightarrow>
      castForQuery E base this h (Args2 c val) =
        (Inl (Error (''Can't use '' @ c @ '' with Date.'')), h))"
  by (auto simp: castForQuery_def conditionalHandlers_ordering handleSingle_def)

theorem castForQuery_two_arguments_witness:
  "castForQuery sample_env Map.empty sample_field 0 (Args2 ''$gt'' (JStr ''2020-01-01'')) =
     cast sample_env sample_field 0 (JStr ''2020-01-01'') \<and>
   cast sample_env sample_field 0 (JStr ''2020-01-01'') = (Inr (JDate 0 (Some 1577836800000)), 1) \<and>
   castForQuery sample_env Map.empty sample_field 0 (Args2 ''$regex'' (JStr ''2020-01-01'')) =
     (Inl (Error ''Can't use $regex with Date.''), 0)"
  using castForQuery_two_arguments [of "''$gt''" sample_env Map.empty sample_field 0 "JStr ''2020-01-01''"]
    castForQuery_two_arguments [of "''$regex''" sample_env Map.empty sample_field 0 "JStr ''2020-01-01''"]
  by (simp add: conditionalHandlers_None cast_JStr)

section \<open>Properties of min and max\<close>

text \<open>
  A bound is accepted exactly when \<open>cast\<close> returns on it, whatever the field type and
  the heap; on a truthy value \<open>cast\<close> returns a Date.
\<close>

lemma bound_ok_cast:
  assumes "bound_ok E v" and "v \<noteq> JDateNow"
  shows "\<exists>d h'. cast E this h v = (Inr d, h')"
proof -
  let ?f = "\<lparr>path = [], validators = [], minValidator = None, maxValidator = None\<rparr>"
  from assms obtain d where "fst (cast E ?f 0 v) = Inr d"
    by (auto simp: bound_ok_def split: sum.splits)
  then have "cast E ?f 0 v = (Inr d, snd (cast E ?f 0 v))"
    by (metis prod.collapse)
  then show ?thesis
    by (rule cast_ok_indep)
qed

lemma cast_bound_ok:
  assumes "cast E this h v = (Inr d, h')"
  shows "bound_ok E v"
proof -
  let ?f = "\<lparr>path = [], validators = [], minValidator = None, maxValidator = None\<rparr>"
  from cast_ok_indep [OF assms, of ?f 0] show ?thesis
    by (auto simp: bound_ok_def)
qed

lemma cast_truthy:
  assumes "cast E this h v = (Inr d, h')" and "truthy v"
  shows "\<exists>a tm. d = JDate a (Some tm)"
  using cast_result [OF assms(1)] assms(2) by auto

lemma min_SchemaDate_cases:
  assumes "min_SchemaDate E this h value msg = (r, this', h')"
  shows "path this' = path this \<and> maxValidator this' = maxValidator this \<and> h \<le> h' \<and>
     ((minValidator this' = minValidator this \<and>
       validators this' =
         (case minValidator this of
            None \<Rightarrow> validators this
          | Some m \<Rightarrow> filter (\<lambda>v. fn_id (validator v) \<noteq> fn_id m) (validators this)) \<and>
       (if truthy value then (\<exists>e. r = Inl e) else r = Inr () \<and> h' = h)) \<or>
      (\<exists>i m. r = Inr () \<and> truthy value \<and> bound_ok E value \<and> h' = Suc i \<and> h \<le> i \<and>
        minValidator this' = Some \<lparr>fn_id = i, fn_kind = MinFn, fn_value = value\<rparr> \<and>
        validators this' =
          (case minValidator this of
             None \<Rightarrow> validators this
           | Some m \<Rightarrow> filter (\<lambda>v. fn_id (validator v) \<noteq> fn_id m) (validators this)) @
          [\<lparr>validator = \<lparr>fn_id = i, fn_kind = MinFn, fn_value = value\<rparr>,
            message = m, type = ''min'', bound = value\<rparr>]))"
proof (cases "truthy value")
  case False
  with assms show ?thesis
    by (auto simp: min_SchemaDate_def Let_def split: option.splits)
next
  case t: True
  show ?thesis
  proof (cases "value = JDateNow")
    case True
    with assms t show ?thesis
      by (auto simp: min_SchemaDate_def Let_def bound_ok_def split: option.splits)
  next
    case False
    obtain c hc where c: "cast E (case minValidator this of
           None \<Rightarrow> this
         | Some m \<Rightarrow>
             this\<lparr>validators := filter (\<lambda>v. fn_id (validator v) \<noteq> fn_id m) (validators this)\<rparr>) h value = (c, hc)"
      by (cases "cast E (case minValidator this of
           None \<Rightarrow> this
         | Some m \<Rightarrow>
             this\<lparr>validators := filter (\<lambda>v. fn_id (validator v) \<noteq> fn_id m) (validators this)\<rparr>) h value")
    have mono: "h \<le> hc" using c by (rule cast_heap_mono)
    show ?thesis
    proof (cases c)
      case (Inl e)
      with assms t False c mono show ?thesis
        by (auto simp: min_SchemaDate_def Let_def split: option.splits)
    next
      case (Inr d)
      with c have ok: "bound_ok E value" by (auto intro: cast_bound_ok)
      from c Inr t obtain a tm where d: "d = JDate a (Some tm)"
        using cast_truthy by blast
      with assms t False c mono Inr ok show ?thesis
        by (auto simp: min_SchemaDate_def Let_def split: option.splits)
    qed
  qed
qed

lemma max_SchemaDate_cases:
  assumes "max_SchemaDate E this h value msg = (r, this', h')"
  shows "path this' = path this \<and> minValidator this' = minValidator this \<and> h \<le> h' \<and>
     ((maxValidator this' = maxValidator this \<and>
       validators this' =
         (case maxValidator this of
            None \<Rightarrow> validators this
          | Some m \<Rightarrow> filter (\<lambda>v. fn_id (validator v) \<noteq> fn_id m) (validators this)) \<and>
       (if truthy value then (\<exists>e. r = Inl e) else r = Inr () \<and> h' = h)) \<or>
      (\<exists>i m. r = Inr () \<and> truthy value \<and> bound_ok E value \<and> h' = Suc i \<and> h \<le> i \<and>
        maxValidator this' = Some \<lparr>fn_id = i, fn_kind = MaxFn, fn_value = value\<rparr> \<and>
        validators this' =
          (case maxValidator this of
             None \<Rightarrow> validators this
           | Some m \<Rightarrow> filter (\<lambda>v. fn_id (validator v) \<noteq> fn_id m) (validators this)) @
          [\<lparr>validator = \<lparr>fn_id = i, fn_kind = MaxFn, fn_value = value\<rparr>,
            message = m, type = ''max'', bound = value\<rparr>]))"
proof (cases "truthy value")
  case False
  with assms show ?thesis
    by (auto simp: max_SchemaDate_def Let_def split: option.splits)
next
  case t: True
  show ?thesis
  proof (cases "value = JDateNow")
    case True
    with assms t show ?thesis
      by (auto simp: max_SchemaDate_def Let_def bound_ok_def split: option.splits)
  next
    case False
    obtain c hc where c: "cast E (case maxValidator this of
           None \<Rightarrow> this
         | Some m \<Rightarrow>
             this\<lparr>validators := filter (\<lambda>v. fn_id (validator v) \<noteq> fn_id m) (validators this)\<rparr>) h value = (c, hc)"
      by (cases "cast E (case maxValidator this of
           None \<Rightarrow> this
         | Some m \<Rightarrow>
             this\<lparr>validators := filter (\<lambda>v. fn_id (validator v) \<noteq> fn_id m) (validators this)\<rparr>) h value")
    have mono: "h \<le> hc" using c by (rule cast_heap_mono)
    show ?thesis
    proof (cases c)
      case (Inl e)
      with assms t False c mono show ?thesis
        by (auto simp: max_SchemaDate_def Let_def split: option.splits)
    next
      case (Inr d)
      with c have ok: "bound_ok E value" by (auto intro: cast_bound_ok)
      from c Inr t obtain a tm where d: "d = JDate a (Some tm)"
        using cast_truthy by blast
      with assms t False c mono Inr ok show ?thesis
        by (auto simp: max_SchemaDate_def Let_def split: option.splits)
    qed
  qed
qed


lemma filter_entries_empty:
  assumes "\<forall>v \<in> set xs. type v = ty \<longrightarrow> fn_id (validator v) = i"
  shows "filter (\<lambda>v. type v = ty) (filter (\<lambda>v. fn_id (validator v) \<noteq> i) xs) = []"
  using assms by (induction xs) auto

lemma filter_entries_same:
  assumes "\<forall>v \<in> set xs. type v = ty \<longrightarrow> fn_id (validator v) \<noteq> i"
  shows "filter (\<lambda>v. type v = ty) (filter (\<lambda>v. fn_id (validator v) \<noteq> i) xs) =
         filter (\<lambda>v. type v = ty) xs"
  using assms by (induction xs) auto


lemma removed_min:
  assumes "chain_inv E (this, h)"
  defines "fl \<equiv> (case minValidator this of
            None \<Rightarrow> validators this
          | Some m \<Rightarrow> filter (\<lambda>v. fn_id (validator v) \<noteq> fn_id m) (validators this))"
  shows "filter (\<lambda>v. type v = ''min'') fl = []"
    and "filter (\<lambda>v. type v = ''max'') fl = entries_of ''max'' this"
    and "set fl \<subseteq> set (validators this)"
proof -
  show "set fl \<subseteq> set (validators this)"
    by (auto simp: fl_def split: option.splits)
  show "filter (\<lambda>v. type v = ''min'') fl = []"
  proof (cases "minValidator this")
    case None
    with assms(1) have "\<forall>v \<in> set (validators this). type v \<noteq> ''min''"
      by (auto simp: chain_inv_alt)
    with None show ?thesis
      by (simp add: fl_def filter_empty_conv)
  next
    case (Some m)
    with assms(1) have "\<forall>v \<in> set (validators this). type v = ''min'' \<longrightarrow> fn_id (validator v) = fn_id m"
      by (auto simp: chain_inv_alt)
    then show ?thesis
      unfolding fl_def Some option.case by (rule filter_entries_empty)
  qed
  show "filter (\<lambda>v. type v = ''max'') fl = entries_of ''max'' this"
  proof (cases "minValidator this")
    case None
    then show ?thesis
      by (simp add: fl_def entries_of_def)
  next
    case (Some m)
    with assms(1) have "\<forall>v \<in> set (validators this). type v = ''max'' \<longrightarrow> fn_id (validator v) \<noteq> fn_id m"
      by (auto simp: chain_inv_alt)
    then show ?thesis
      unfolding fl_def Some option.case entries_of_def by (rule filter_entries_same)
  qed
qed

lemma removed_max:
  assumes "chain_inv E (this, h)"
  defines "fl \<equiv> (case maxValidator this of
            None \<Rightarrow> validators this
          | Some m \<Rightarrow> filter (\<lambda>v. fn_id (validator v) \<noteq> fn_id m) (validators this))"
  shows "filter (\<lambda>v. type v = ''max'') fl = []"
    and "filter (\<lambda>v. type v = ''min'') fl = entries_of ''min'' this"
    and "set fl \<subseteq> set (validators this)"
proof -
  show "set fl \<subseteq> set (validators this)"
    by (auto simp: fl_def split: option.splits)
  show "filter (\<lambda>v. type v = ''max'') fl = []"
  proof (cases "maxValidator this")
    case None
    with assms(1) have "\<forall>v \<in> set (validators this). type v \<noteq> ''max''"
      by (auto simp: chain_inv_alt)
    with None show ?thesis
      by (simp add: fl_def filter_empty_conv)
  next
    case (Some m)
    with assms(1) have "\<forall>v \<in> set (validators this). type v = ''max'' \<longrightarrow> fn_id (validator v) = fn_id m"
      by (auto simp: chain_inv_alt)
    then show ?thesis
      unfolding fl_def Some option.case by (rule filter_entries_empty)
  qed
  show "filter (\<lambda>v. type v = ''min'') fl = entries_of ''min'' this"
  proof (cases "maxValidator this")
    case None
    then show ?thesis
      by (simp add: fl_def entries_of_def)
  next
    case (Some m)
    with assms(1) have "\<forall>v \<in> set (validators this). type v = ''min'' \<longrightarrow> fn_id (validator v) \<noteq> fn_id m"
      by (auto simp: chain_inv_alt)
    then show ?thesis
      unfolding fl_def Some option.case entries_of_def by (rule filter_entries_same)
  qed
qed

lemma chain_inv_min:
  assumes inv: "chain_inv E (this, h)"
    and call: "min_SchemaDate E this h value msg = (r, this', h')"
  shows "chain_inv E (this', h')"
proof -
  define fl where "fl = (case minValidator this of
            None \<Rightarrow> validators this
          | Some m \<Rightarrow> filter (\<lambda>v. fn_id (validator v) \<noteq> fn_id m) (validators this))"
  note rm = removed_min [OF inv, folded fl_def]
  from min_SchemaDate_cases [OF call, folded fl_def]
  have same: "maxValidator this' = maxValidator this" and le: "h \<le> h'"
    and alt: "(minValidator this' = minValidator this \<and> validators this' = fl) \<or>
      (\<exists>i m. truthy value \<and> bound_ok E value \<and> h' = Suc i \<and> h \<le> i \<and>
        minValidator this' = Some \<lparr>fn_id = i, fn_kind = MinFn, fn_value = value\<rparr> \<and>
        validators this' = fl @
          [\<lparr>validator = \<lparr>fn_id = i, fn_kind = MinFn, fn_value = value\<rparr>,
            message = m, type = ''min'', bound = value\<rparr>])"
    by auto
  have old: "\<forall>v \<in> set fl. type v \<noteq> ''min'' \<and>
           (type v = ''max'' \<longrightarrow> maxValidator this = Some (validator v)) \<and>
           fn_id (validator v) < h \<and>
           (\<forall>m. type v = ''max'' \<longrightarrow> minValidator this = Some m \<longrightarrow> fn_id m \<noteq> fn_id (validator v)) \<and>
           truthy (fn_value (validator v)) \<and>
           bound_ok E (fn_value (validator v))"
  proof
    fix v assume v: "v \<in> set fl"
    then have "v \<in> set (validators this)" using rm(3) by auto
    moreover have "type v \<noteq> ''min''"
      using rm(1) v by (auto simp: filter_empty_conv)
    ultimately show "type v \<noteq> ''min'' \<and>
           (type v = ''max'' \<longrightarrow> maxValidator this = Some (validator v)) \<and>
           fn_id (validator v) < h \<and>
           (\<forall>m. type v = ''max'' \<longrightarrow> minValidator this = Some m \<longrightarrow> fn_id m \<noteq> fn_id (validator v)) \<and>
           truthy (fn_value (validator v)) \<and>
           bound_ok E (fn_value (validator v))"
      using inv by (auto simp: chain_inv_alt)
  qed
  have maxlen: "length (entries_of ''max'' this) \<le> 1"
    and minref: "\<forall>m. minValidator this = Some m \<longrightarrow> fn_id m < h"
    and maxref: "\<forall>m. maxValidator this = Some m \<longrightarrow> fn_id m < h"
    using inv by (auto simp: chain_inv_alt)
  from alt show ?thesis
  proof
    assume a: "minValidator this' = minValidator this \<and> validators this' = fl"
    have "entries_of ''min'' this' = []" "entries_of ''max'' this' = entries_of ''max'' this"
      using a rm by (simp_all add: entries_of_def)
    then show ?thesis
      using a old same le maxlen minref maxref
      by (fastforce simp: chain_inv_alt)
  next
    assume "\<exists>i m. truthy value \<and> bound_ok E value \<and> h' = Suc i \<and> h \<le> i \<and>
        minValidator this' = Some \<lparr>fn_id = i, fn_kind = MinFn, fn_value = value\<rparr> \<and>
        validators this' = fl @
          [\<lparr>validator = \<lparr>fn_id = i, fn_kind = MinFn, fn_value = value\<rparr>,
            message = m, type = ''min'', bound = value\<rparr>]"
    then obtain i m where b: "truthy value" "bound_ok E value" "h' = Suc i" "h \<le> i"
        "minValidator this' = Some \<lparr>fn_id = i, fn_kind = MinFn, fn_value = value\<rparr>"
        "validators this' = fl @
          [\<lparr>validator = \<lparr>fn_id = i, fn_kind = MinFn, fn_value = value\<rparr>,
            message = m, type = ''min'', bound = value\<rparr>]"
      by blast
    have "length (entries_of ''min'' this') = 1" "entries_of ''max'' this' = entries_of ''max'' this"
      using b rm by (simp_all add: entries_of_def)
    then show ?thesis
      using b old same maxlen maxref
      by (fastforce simp: chain_inv_alt)
  qed
qed

lemma chain_inv_max:
  assumes inv: "chain_inv E (this, h)"
    and call: "max_SchemaDate E this h value msg = (r, this', h')"
  shows "chain_inv E (this', h')"
proof -
  define fl where "fl = (case maxValidator this of
            None \<Rightarrow> validators this
          | Some m \<Rightarrow> filter (\<lambda>v. fn_id (validator v) \<noteq> fn_id m) (validators this))"
  note rm = removed_max [OF inv, folded fl_def]
  from max_SchemaDate_cases [OF call, folded fl_def]
  have same: "minValidator this' = minValidator this" and le: "h \<le> h'"
    and alt: "(maxValidator this' = maxValidator this \<and> validators this' = fl) \<or>
      (\<exists>i m. truthy value \<and> bound_ok E value \<and> h' = Suc i \<and> h \<le> i \<and>
        maxValidator this' = Some \<lparr>fn_id = i, fn_kind = MaxFn, fn_value = value\<rparr> \<and>
        validators this' = fl @
          [\<lparr>validator = \<lparr>fn_id = i, fn_kind = MaxFn, fn_value = value\<rparr>,
            message = m, type = ''max'', bound = value\<rparr>])"
    by auto
  have old: "\<forall>v \<in> set fl. type v \<noteq> ''max'' \<and>
           (type v = ''min'' \<longrightarrow> minValidator this = Some (validator v)) \<and>
           fn_id (validator v) < h \<and>
           (\<forall>m. type v = ''min'' \<longrightarrow> maxValidator this = Some m \<longrightarrow> fn_id m \<noteq> fn_id (validator v)) \<and>
           truthy (fn_value (validator v)) \<and>
           bound_ok E (fn_value (validator v))"
  proof
    fix v assume v: "v \<in> set fl"
    then have "v \<in> set (validators this)" using rm(3) by auto
    moreover have "type v \<noteq> ''max''"
      using rm(1) v by (auto simp: filter_empty_conv)
    ultimately show "type v \<noteq> ''max'' \<and>
           (type v = ''min'' \<longrightarrow> minValidator this = Some (validator v)) \<and>
           fn_id (validator v) < h \<and>
           (\<forall>m. type v = ''min'' \<longrightarrow> maxValidator this = Some m \<longrightarrow> fn_id m \<noteq> fn_id (validator v)) \<and>
           truthy (fn_value (validator v)) \<and>
           bound_ok E (fn_value (validator v))"
      using inv by (auto simp: chain_inv_alt)
  qed
  have minlen: "length (entries_of ''min'' this) \<le> 1"
    and maxref: "\<forall>m. maxValidator this = Some m \<longrightarrow> fn_id m < h"
    and minref: "\<forall>m. minValidator this = Some m \<longrightarrow> fn_id m < h"
    using inv by (auto simp: chain_inv_alt)
  from alt show ?thesis
  proof
    assume a: "maxValidator this' = maxValidator this \<and> validators this' = fl"
    have "entries_of ''max'' this' = []" "entries_of ''min'' this' = entries_of ''min'' this"
      using a rm by (simp_all add: entries_of_def)
    then show ?thesis
      using a old same le minlen maxref minref
      by (fastforce simp: chain_inv_alt)
  next
    assume "\<exists>i m. truthy value \<and> bound_ok E value \<and> h' = Suc i \<and> h \<le> i \<and>
        maxValidator this' = Some \<lparr>fn_id = i, fn_kind = MaxFn, fn_value = value\<rparr> \<and>
        validators this' = fl @
          [\<lparr>validator = \<lparr>fn_id = i, fn_kind = MaxFn, fn_value = value\<rparr>,
            message = m, type = ''max'', bound = value\<rparr>]"
    then obtain i m where b: "truthy value" "bound_ok E value" "h' = Suc i" "h \<le> i"
        "maxValidator this' = Some \<lparr>fn_id = i, fn_kind = MaxFn, fn_value = value\<rparr>"
        "validators this' = fl @
          [\<lparr>validator = \<lparr>fn_id = i, fn_kind = MaxFn, fn_value = value\<rparr>,
            message = m, type = ''max'', bound = value\<rparr>]"
      by blast
    have "length (entries_of ''max'' this') = 1" "entries_of ''min'' this' = entries_of ''min'' this"
      using b rm by (simp_all add: entries_of_def)
    then show ?thesis
      using b old same minlen minref
      by (fastforce simp: chain_inv_alt)
  qed
qed


lemma chain_inv_new: "chain_inv E (new_SchemaDate key, h0)"
  by (simp add: chain_inv_alt new_SchemaDate_def entries_of_def)

lemma chain_inv_do_call:
  assumes "chain_inv E st"
  shows "chain_inv E (do_call E st c)"
proof -
  obtain this h where st: "st = (this, h)" by (cases st)
  show ?thesis
  proof (cases c)
    case (CallMin v m)
    obtain r this' h' where "min_SchemaDate E this h v m = (r, this', h')"
      by (cases "min_SchemaDate E this h v m")
    with assms st CallMin show ?thesis
      by (auto dest: chain_inv_min)
  next
    case (CallMax v m)
    obtain r this' h' where "max_SchemaDate E this h v m = (r, this', h')"
      by (cases "max_SchemaDate E this h v m")
    with assms st CallMax show ?thesis
      by (auto dest: chain_inv_max)
  qed
qed

lemma chain_inv_do_calls:
  "chain_inv E st \<Longrightarrow> chain_inv E (do_calls E st cs)"
  unfolding do_calls_def
  by (induction cs arbitrary: st) (simp_all add: chain_inv_do_call)

section \<open>Properties of the validator functions\<close>

text \<open>
  Reading a bound again keeps its kind. Once the bound resolves, a truthy bound is a
  number or a valid Date, and the function returns a boolean on null and on every
  candidate with a \<open>valueOf\<close> method.
\<close>

lemma truthy_reread [simp]: "truthy (reread S v) = truthy v"
  by (cases v) simp_all

lemma reread_DateNow [simp]: "(reread S v = JDateNow) = (v = JDateNow)"
  by (cases v) simp_all








lemma validator_fn_null:
  assumes "value = JDateNow \<or> (\<exists>d h2. cast E self h value = (Inr d, h2))"
  shows "fst (minValidator_fn E self value now h JNull) = Inr True"
    and "fst (maxValidator_fn E self value now h JNull) = Inr True"
  using assms by (auto simp: minValidator_fn_def maxValidator_fn_def)

lemma validator_fn_bound_throws:
  assumes "value \<noteq> JDateNow" and "cast E self h value = (Inl e, h2)"
  shows "minValidator_fn E self value now h val = (Inl e, h2)"
    and "maxValidator_fn E self value now h val = (Inl e, h2)"
  using assms by (simp_all add: minValidator_fn_def maxValidator_fn_def)

text \<open>Every field type reached from a new one by setter calls satisfies the invariant.\<close>

lemma reachable_inv:
  "do_calls E (new_SchemaDate key, h0) cs = (this, h) \<Longrightarrow> chain_inv E (this, h)"
  using chain_inv_do_calls [OF chain_inv_new, of E key h0 cs] by simp

lemma chain_inv_bound_ok:
  "chain_inv E (this, h) \<Longrightarrow> v \<in> set (validators this) \<Longrightarrow> bound_ok E (fn_value (validator v))"
  by (auto simp: chain_inv_alt)


text \<open>\<open>>=\<close> and \<open><=\<close> on two finite numbers.\<close>

lemma js_ge_num: "js_ge E (JNum (Fin a)) (JNum (Fin b)) = Inr (b \<le> a)"
  by (auto simp: js_ge_def js_isLessThan_def)

lemma js_le_num: "js_le E (JNum (Fin a)) (JNum (Fin b)) = Inr (a \<le> b)"
  by (auto simp: js_le_def js_isLessThan_def)


lemma sample_run_replace:
  "do_calls sample_env (new_SchemaDate ''createdAt'', 0)
     [CallMin (JStr ''2020-01-01'') None, CallMin (JNum (Fin 1500000000000)) None, CallMax JDateNow None] =
     (\<lparr>path = ''createdAt'',
       validators =
         [\<lparr>validator = \<lparr>fn_id = 3, fn_kind = MinFn, fn_value = JNum (Fin 1500000000000)\<rparr>,
           message = ''Path ({VALUE}) is before minimum allowed value ([a date]).'',
           type = ''min'', bound = JNum (Fin 1500000000000)\<rparr>,
          \<lparr>validator = \<lparr>fn_id = 4, fn_kind = MaxFn, fn_value = JDateNow\<rparr>,
           message = ''Path ({VALUE}) is after maximum allowed value (Date.now()).'',
           type = ''max'', bound = JDateNow\<rparr>],
       minValidator = Some \<lparr>fn_id = 3, fn_kind = MinFn, fn_value = JNum (Fin 1500000000000)\<rparr>,
       maxValidator = Some \<lparr>fn_id = 4, fn_kind = MaxFn, fn_value = JDateNow\<rparr>\<rparr>, 5)"
  by (simp add: do_calls_def min_SchemaDate_def max_SchemaDate_def new_SchemaDate_def
      cast_JStr cast_JNum sample_env_def Number_str_def trunc_def Let_def eval_nat_numeral)

lemma sample_run_date:
  "do_calls sample_env (new_SchemaDate ''createdAt'', 8) [CallMin (JDate 7 (Some 1000)) None] =
     (\<lparr>path = ''createdAt'',
       validators =
         [\<lparr>validator = \<lparr>fn_id = 8, fn_kind = MinFn, fn_value = JDate 7 (Some 1000)\<rparr>,
           message = ''Path ({VALUE}) is before minimum allowed value ([a date]).'',
           type = ''min'', bound = JDate 7 (Some 1000)\<rparr>],
       minValidator = Some \<lparr>fn_id = 8, fn_kind = MinFn, fn_value = JDate 7 (Some 1000)\<rparr>,
       maxValidator = None\<rparr>, 9)"
  by (simp add: do_calls_def min_SchemaDate_def new_SchemaDate_def
      cast_JDate sample_env_def Let_def eval_nat_numeral)

lemma store_simps [simp]:
  "date_value store_invalid a = None"
  "date_value store_moved 7 = Some 2000"
  by (simp_all add: store_invalid_def store_moved_def)

section \<open>Specified behaviour of min, max and the validator functions\<close>

text \<open>
  C5. After any sequence of \<open>min\<close> and \<open>max\<close> calls on a new field type (calls that
  throw included), the chain holds at most one entry tagged \<open>min\<close> and at most one tagged
  \<open>max\<close>. A further \<open>min\<close> call leaves the \<open>max\<close> entries as they are; with a falsy
  argument it returns normally, creates nothing and leaves no \<open>min\<close> entry; with a truthy
  argument, when it returns, the only \<open>min\<close> entry is the new one, whose function was
  created by this call (its address is not below the heap the call started with) and is
  the one \<open>minValidator\<close> refers to, the previous one having been filtered out by the
  identity of its function. Symmetrically for \<open>max\<close>.
\<close>

theorem at_most_one_bound_validator:
  assumes "do_calls E (new_SchemaDate key, h0) cs = (this, h)"
  shows "length (entries_of ''min'' this) \<le> 1 \<and> length (entries_of ''max'' this) \<le> 1 \<and>
     (min_SchemaDate E this h x msg = (r, this', h') \<longrightarrow>
        entries_of ''max'' this' = entries_of ''max'' this \<and>
        (\<not> truthy x \<longrightarrow> r = Inr () \<and> h' = h \<and> entries_of ''min'' this' = []) \<and>
        (truthy x \<and> r = Inr () \<longrightarrow>
           (\<exists>i m. h \<le> i \<and> minValidator this' = Some \<lparr>fn_id = i, fn_kind = MinFn, fn_value = x\<rparr> \<and>
              entries_of ''min'' this' =
                [\<lparr>validator = \<lparr>fn_id = i, fn_kind = MinFn, fn_value = x\<rparr>,
                  message = m, type = ''min'', bound = x\<rparr>]))) \<and>
     (max_SchemaDate E this h x msg = (r, this', h') \<longrightarrow>
        entries_of ''min'' this' = entries_of ''min'' this \<and>
        (\<not> truthy x \<longrightarrow> r = Inr () \<and> h' = h \<and> entries_of ''max'' this' = []) \<and>
        (truthy x \<and> r = Inr () \<longrightarrow>
           (\<exists>i m. h \<le> i \<and> maxValidator this' = Some \<lparr>fn_id = i, fn_kind = MaxFn, fn_value = x\<rparr> \<and>
              entries_of ''max'' this' =
                [\<lparr>validator = \<lparr>fn_id = i, fn_kind = MaxFn, fn_value = x\<rparr>,
                  message = m, type = ''max'', bound = x\<rparr>])))"
proof -
  have inv: "chain_inv E (this, h)"
    using assms by (rule reachable_inv)
  have len: "length (entries_of ''min'' this) \<le> 1 \<and> length (entries_of ''max'' this) \<le> 1"
    using inv by (simp add: chain_inv_alt)
  have mn: "min_SchemaDate E this h x msg = (r, this', h') \<longrightarrow>
        entries_of ''max'' this' = entries_of ''max'' this \<and>
        (\<not> truthy x \<longrightarrow> r = Inr () \<and> h' = h \<and> entries_of ''min'' this' = []) \<and>
        (truthy x \<and> r = Inr () \<longrightarrow>
           (\<exists>i m. h \<le> i \<and> minValidator this' = Some \<lparr>fn_id = i, fn_kind = MinFn, fn_value = x\<rparr> \<and>
              entries_of ''min'' this' =
                [\<lparr>validator = \<lparr>fn_id = i, fn_kind = MinFn, fn_value = x\<rparr>,
                  message = m, type = ''min'', bound = x\<rparr>]))"
  proof
    assume call: "min_SchemaDate E this h x msg = (r, this', h')"
    define fl where "fl = (case minValidator this of
            None \<Rightarrow> validators this
          | Some m \<Rightarrow> filter (\<lambda>v. fn_id (validator v) \<noteq> fn_id m) (validators this))"
    note rm = removed_min [OF inv, folded fl_def]
    from min_SchemaDate_cases [OF call, folded fl_def]
    have alt: "(validators this' = fl \<and> (if truthy x then (\<exists>e. r = Inl e) else r = Inr () \<and> h' = h)) \<or>
      (\<exists>i m. truthy x \<and> h \<le> i \<and>
        minValidator this' = Some \<lparr>fn_id = i, fn_kind = MinFn, fn_value = x\<rparr> \<and>
        validators this' = fl @
          [\<lparr>validator = \<lparr>fn_id = i, fn_kind = MinFn, fn_value = x\<rparr>,
            message = m, type = ''min'', bound = x\<rparr>])"
      by auto
    then show "entries_of ''max'' this' = entries_of ''max'' this \<and>
        (\<not> truthy x \<longrightarrow> r = Inr () \<and> h' = h \<and> entries_of ''min'' this' = []) \<and>
        (truthy x \<and> r = Inr () \<longrightarrow>
           (\<exists>i m. h \<le> i \<and> minValidator this' = Some \<lparr>fn_id = i, fn_kind = MinFn, fn_value = x\<rparr> \<and>
              entries_of ''min'' this' =
                [\<lparr>validator = \<lparr>fn_id = i, fn_kind = MinFn, fn_value = x\<rparr>,
                  message = m, type = ''min'', bound = x\<rparr>]))"
    proof
      assume a: "validators this' = fl \<and> (if truthy x then (\<exists>e. r = Inl e) else r = Inr () \<and> h' = h)"
      then have "entries_of ''min'' this' = []" "entries_of ''max'' this' = entries_of ''max'' this"
        using rm by (simp_all add: entries_of_def)
      with a show ?thesis by (auto split: if_splits)
    next
      assume "\<exists>i m. truthy x \<and> h \<le> i \<and>
        minValidator this' = Some \<lparr>fn_id = i, fn_kind = MinFn, fn_value = x\<rparr> \<and>
        validators this' = fl @
          [\<lparr>validator = \<lparr>fn_id = i, fn_kind = MinFn, fn_value = x\<rparr>,
            message = m, type = ''min'', bound = x\<rparr>]"
      then obtain i m where b: "truthy x" "h \<le> i"
        "minValidator this' = Some \<lparr>fn_id = i, fn_kind = MinFn, fn_value = x\<rparr>"
        "validators this' = fl @
          [\<lparr>validator = \<lparr>fn_id = i, fn_kind = MinFn, fn_value = x\<rparr>,
            message = m, type = ''min'', bound = x\<rparr>]"
        by blast
      have "entries_of ''min'' this' = [\<lparr>validator = \<lparr>fn_id = i, fn_kind = MinFn, fn_value = x\<rparr>,
            message = m, type = ''min'', bound = x\<rparr>]"
        "entries_of ''max'' this' = entries_of ''max'' this"
        using b rm by (simp_all add: entries_of_def)
      with b show ?thesis by auto
    qed
  qed
  have mx: "max_SchemaDate E this h x msg = (r, this', h') \<longrightarrow>
        entries_of ''min'' this' = entries_of ''min'' this \<and>
        (\<not> truthy x \<longrightarrow> r = Inr () \<and> h' = h \<and> entries_of ''max'' this' = []) \<and>
        (truthy x \<and> r = Inr () \<longrightarrow>
           (\<exists>i m. h \<le> i \<and> maxValidator this' = Some \<lparr>fn_id = i, fn_kind = MaxFn, fn_value = x\<rparr> \<and>
              entries_of ''max'' this' =
                [\<lparr>validator = \<lparr>fn_id = i, fn_kind = MaxFn, fn_value = x\<rparr>,
                  message = m, type = ''max'', bound = x\<rparr>]))"
  proof
    assume call: "max_SchemaDate E this h x msg = (r, this', h')"
    define fl where "fl = (case maxValidator this of
            None \<Rightarrow> validators this
          | Some m \<Rightarrow> filter (\<lambda>v. fn_id (validator v) \<noteq> fn_id m) (validators this))"
    note rm = removed_max [OF inv, folded fl_def]
    from max_SchemaDate_cases [OF call, folded fl_def]
    have alt: "(validators this' = fl \<and> (if truthy x then (\<exists>e. r = Inl e) else r = Inr () \<and> h' = h)) \<or>
      (\<exists>i m. truthy x \<and> h \<le> i \<and>
        maxValidator this' = Some \<lparr>fn_id = i, fn_kind = MaxFn, fn_value = x\<rparr> \<and>
        validators this' = fl @
          [\<lparr>validator = \<lparr>fn_id = i, fn_kind = MaxFn, fn_value = x\<rparr>,
            message = m, type = ''max'', bound = x\<rparr>])"
      by auto
    then show "entries_of ''min'' this' = entries_of ''min'' this \<and>
        (\<not> truthy x \<longrightarrow> r = Inr () \<and> h' = h \<and> entries_of ''max'' this' = []) \<and>
        (truthy x \<and> r = Inr () \<longrightarrow>
           (\<exists>i m. h \<le> i \<and> maxValidator this' = Some \<lparr>fn_id = i, fn_kind = MaxFn, fn_value = x\<rparr> \<and>
              entries_of ''max'' this' =
                [\<lparr>validator = \<lparr>fn_id = i, fn_kind = MaxFn, fn_value = x\<rparr>,
                  message = m, type = ''max'', bound = x\<rparr>]))"
    proof
      assume a: "validators this' = fl \<and> (if truthy x then (\<exists>e. r = Inl e) else r = Inr () \<and> h' = h)"
      then have "entries_of ''max'' this' = []" "entries_of ''min'' this' = entries_of ''min'' this"
        using rm by (simp_all add: entries_of_def)
      with a show ?thesis by (auto split: if_splits)
    next
      assume "\<exists>i m. truthy x \<and> h \<le> i \<and>
        maxValidator this' = Some \<lparr>fn_id = i, fn_kind = MaxFn, fn_value = x\<rparr> \<and>
        validators this' = fl @
          [\<lparr>validator = \<lparr>fn_id = i, fn_kind = MaxFn, fn_value = x\<rparr>,
            message = m, type = ''max'', bound = x\<rparr>]"
      then obtain i m where b: "truthy x" "h \<le> i"
        "maxValidator this' = Some \<lparr>fn_id = i, fn_kind = MaxFn, fn_value = x\<rparr>"
        "validators this' = fl @
          [\<lparr>validator = \<lparr>fn_id = i, fn_kind = MaxFn, fn_value = x\<rparr>,
            message = m, type = ''max'', bound = x\<rparr>]"
        by blast
      have "entries_of ''max'' this' = [\<lparr>validator = \<lparr>fn_id = i, fn_kind = MaxFn, fn_value = x\<rparr>,
            message = m, type = ''max'', bound = x\<rparr>]"
        "entries_of ''min'' this' = entries_of ''min'' this"
        using b rm by (simp_all add: entries_of_def)
      with b show ?thesis by auto
    qed
  qed
  from len mn mx show ?thesis by blast
qed

theorem at_most_one_bound_validator_witness:
  "length (entries_of ''min'' (fst (do_calls sample_env (new_SchemaDate ''createdAt'', 0)
     [CallMin (JStr ''2020-01-01'') None, CallMin (JNum (Fin 1500000000000)) None, CallMax JDateNow None]))) = 1 \<and>
   length (entries_of ''max'' (fst (do_calls sample_env (new_SchemaDate ''createdAt'', 0)
     [CallMin (JStr ''2020-01-01'') None, CallMin (JNum (Fin 1500000000000)) None, CallMax JDateNow None]))) = 1 \<and>
   entries_of ''min'' (fst (snd (min_SchemaDate sample_env
     (fst (do_calls sample_env (new_SchemaDate ''createdAt'', 0)
        [CallMin (JStr ''2020-01-01'') None, CallMin (JNum (Fin 1500000000000)) None, CallMax JDateNow None]))
     (snd (do_calls sample_env (new_SchemaDate ''createdAt'', 0)
        [CallMin (JStr ''2020-01-01'') None, CallMin (JNum (Fin 1500000000000)) None, CallMax JDateNow None]))
     JNull None))) = [] \<and>
   length (entries_of ''max'' (fst (snd (max_SchemaDate sample_env
     (fst (do_calls sample_env (new_SchemaDate ''createdAt'', 0)
        [CallMin (JStr ''2020-01-01'') None, CallMin (JNum (Fin 1500000000000)) None, CallMax JDateNow None]))
     (snd (do_calls sample_env (new_SchemaDate ''createdAt'', 0)
        [CallMin (JStr ''2020-01-01'') None, CallMin (JNum (Fin 1500000000000)) None, CallMax JDateNow None]))
     (JStr ''2020-01-01'') None)))) = 1"
proof -
  let ?st = "do_calls sample_env (new_SchemaDate ''createdAt'', 0)
     [CallMin (JStr ''2020-01-01'') None, CallMin (JNum (Fin 1500000000000)) None, CallMax JDateNow None]"
  let ?X = "min_SchemaDate sample_env (fst ?st) (snd ?st) JNull None"
  let ?Y = "max_SchemaDate sample_env (fst ?st) (snd ?st) (JStr ''2020-01-01'') None"
  have call: "?X = (fst ?X, fst (snd ?X), snd (snd ?X))"
    by simp
  have call2: "?Y = (Inr (), fst (snd ?Y), snd (snd ?Y))"
    by (simp add: sample_run_replace max_SchemaDate_def Let_def cast_JStr)
  have n: "length (entries_of ''min'' (fst ?st)) = 1" "length (entries_of ''max'' (fst ?st)) = 1"
    by (simp_all add: sample_run_replace entries_of_def)
  have falsy: "entries_of ''min'' (fst (snd ?X)) = []"
    using at_most_one_bound_validator [OF prod.collapse [symmetric],
      where x = JNull and msg = None and r = "fst ?X" and this' = "fst (snd ?X)" and h' = "snd (snd ?X)"]
      call
    by simp
  have "truthy (JStr ''2020-01-01'')"
    by simp
  with at_most_one_bound_validator [OF prod.collapse [symmetric],
      where x = "JStr ''2020-01-01''" and msg = None and r = "Inr ()" and this' = "fst (snd ?Y)"
        and h' = "snd (snd ?Y)"]
    call2
  have "\<exists>i m. entries_of ''max'' (fst (snd ?Y)) =
         [\<lparr>validator = \<lparr>fn_id = i, fn_kind = MaxFn, fn_value = JStr ''2020-01-01''\<rparr>,
           message = m, type = ''max'', bound = JStr ''2020-01-01''\<rparr>]"
    by blast
  then have truthy: "length (entries_of ''max'' (fst (snd ?Y))) = 1"
    by auto
  from n falsy truthy show ?thesis
    by (intro conjI)
qed

text \<open>
  C6. A validator function whose bound is \<open>Date.now\<close> compares the candidate with the
  clock as it reads when the function is called: on a Date candidate with time value \<open>t\<close>
  the \<open>min\<close> function returns \<open>now <= t\<close> and the \<open>max\<close> function \<open>t <= now\<close>, and the
  heap is untouched. With any other bound the function calls \<open>cast\<close> at each call, on
  the bound as it reads at that call: when \<open>cast\<close> returns the Date with time value \<open>bd\<close>
  the result is \<open>bd <= t\<close> for \<open>min\<close> and \<open>t <= bd\<close> for \<open>max\<close>, and when \<open>cast\<close> throws,
  the function throws the same error. The setters store the bound as it was given (the
  function \<open>Date.now\<close> itself, or the literal before any cast) in the function they
  install; they do not read the clock.
\<close>

theorem bound_validator_resolves_at_evaluation:
  "call_validator E self S \<lparr>fn_id = i, fn_kind = MinFn, fn_value = JDateNow\<rparr> now h (JDate a (Some t)) =
     (Inr (now \<le> t), h) \<and>
   call_validator E self S \<lparr>fn_id = i, fn_kind = MaxFn, fn_value = JDateNow\<rparr> now h (JDate a (Some t)) =
     (Inr (t \<le> now), h) \<and>
   (x \<noteq> JDateNow \<longrightarrow> cast E self h (reread S x) = (Inr (JDate b (Some bd)), h') \<longrightarrow>
      call_validator E self S \<lparr>fn_id = i, fn_kind = MinFn, fn_value = x\<rparr> now h (JDate a (Some t)) =
        (Inr (bd \<le> t), h') \<and>
      call_validator E self S \<lparr>fn_id = i, fn_kind = MaxFn, fn_value = x\<rparr> now h (JDate a (Some t)) =
        (Inr (t \<le> bd), h')) \<and>
   (x \<noteq> JDateNow \<longrightarrow> cast E self h (reread S x) = (Inl e, h') \<longrightarrow>
      call_validator E self S \<lparr>fn_id = i, fn_kind = MinFn, fn_value = x\<rparr> now h (JDate a (Some t)) =
        (Inl e, h') \<and>
      call_validator E self S \<lparr>fn_id = i, fn_kind = MaxFn, fn_value = x\<rparr> now h (JDate a (Some t)) =
        (Inl e, h')) \<and>
   (min_SchemaDate E this h x msg = (Inr (), this', h') \<longrightarrow> truthy x \<longrightarrow>
      (\<exists>j. minValidator this' = Some \<lparr>fn_id = j, fn_kind = MinFn, fn_value = x\<rparr>)) \<and>
   (max_SchemaDate E this h x msg = (Inr (), this', h') \<longrightarrow> truthy x \<longrightarrow>
      (\<exists>j. maxValidator this' = Some \<lparr>fn_id = j, fn_kind = MaxFn, fn_value = x\<rparr>))"
proof -
  have now_min: "call_validator E self S \<lparr>fn_id = i, fn_kind = MinFn, fn_value = JDateNow\<rparr> now h (JDate a (Some t)) =
     (Inr (now \<le> t), h)"
    by (simp add: call_validator_def minValidator_fn_def js_ge_num)
  have now_max: "call_validator E self S \<lparr>fn_id = i, fn_kind = MaxFn, fn_value = JDateNow\<rparr> now h (JDate a (Some t)) =
     (Inr (t \<le> now), h)"
    by (simp add: call_validator_def maxValidator_fn_def js_le_num)
  have lit: "x \<noteq> JDateNow \<longrightarrow> cast E self h (reread S x) = (Inr (JDate b (Some bd)), h') \<longrightarrow>
      call_validator E self S \<lparr>fn_id = i, fn_kind = MinFn, fn_value = x\<rparr> now h (JDate a (Some t)) =
        (Inr (bd \<le> t), h') \<and>
      call_validator E self S \<lparr>fn_id = i, fn_kind = MaxFn, fn_value = x\<rparr> now h (JDate a (Some t)) =
        (Inr (t \<le> bd), h')"
    by (simp add: call_validator_def minValidator_fn_def maxValidator_fn_def js_ge_num js_le_num)
  have err: "x \<noteq> JDateNow \<longrightarrow> cast E self h (reread S x) = (Inl e, h') \<longrightarrow>
      call_validator E self S \<lparr>fn_id = i, fn_kind = MinFn, fn_value = x\<rparr> now h (JDate a (Some t)) =
        (Inl e, h') \<and>
      call_validator E self S \<lparr>fn_id = i, fn_kind = MaxFn, fn_value = x\<rparr> now h (JDate a (Some t)) =
        (Inl e, h')"
    by (simp add: call_validator_def minValidator_fn_def maxValidator_fn_def)
  have inst_min: "min_SchemaDate E this h x msg = (Inr (), this', h') \<longrightarrow> truthy x \<longrightarrow>
      (\<exists>j. minValidator this' = Some \<lparr>fn_id = j, fn_kind = MinFn, fn_value = x\<rparr>)"
    using min_SchemaDate_cases [of E this h "x" msg "Inr ()" this' h'] by auto
  have inst_max: "max_SchemaDate E this h x msg = (Inr (), this', h') \<longrightarrow> truthy x \<longrightarrow>
      (\<exists>j. maxValidator this' = Some \<lparr>fn_id = j, fn_kind = MaxFn, fn_value = x\<rparr>)"
    using max_SchemaDate_cases [of E this h "x" msg "Inr ()" this' h'] by auto
  from now_min now_max lit err inst_min inst_max show ?thesis
    by (intro conjI)
qed

theorem bound_validator_resolves_at_evaluation_witness:
  "call_validator sample_env sample_field store_invalid \<lparr>fn_id = 1, fn_kind = MinFn, fn_value = JDateNow\<rparr>
     1000 5 (JDate 0 (Some 2000)) = (Inr True, 5) \<and>
   call_validator sample_env sample_field store_invalid \<lparr>fn_id = 1, fn_kind = MinFn, fn_value = JDateNow\<rparr>
     3000 5 (JDate 0 (Some 2000)) = (Inr False, 5) \<and>
   call_validator sample_env sample_field store_invalid \<lparr>fn_id = 1, fn_kind = MinFn, fn_value = JStr ''2020-01-01''\<rparr>
     3000 5 (JDate 0 (Some 2000)) = (Inr False, 6) \<and>
   call_validator sample_env sample_field store_invalid \<lparr>fn_id = 1, fn_kind = MaxFn, fn_value = JStr ''2020-01-01''\<rparr>
     3000 5 (JDate 0 (Some 2000)) = (Inr True, 6) \<and>
   call_validator sample_env sample_field store_moved \<lparr>fn_id = 1, fn_kind = MinFn, fn_value = JDate 7 (Some 1000)\<rparr>
     3000 5 (JDate 0 (Some 1500)) = (Inr False, 5) \<and>
   call_validator sample_env sample_field store_invalid \<lparr>fn_id = 1, fn_kind = MinFn, fn_value = JStr ''soon''\<rparr>
     3000 5 (JDate 0 (Some 2000)) = (Inl (CastError ''date'' (JStr ''soon'') ''createdAt''), 6) \<and>
   (\<exists>j. minValidator (fst (snd (min_SchemaDate sample_env sample_field 0 JDateNow None))) =
     Some \<lparr>fn_id = j, fn_kind = MinFn, fn_value = JDateNow\<rparr>)"
proof -
  have c: "cast sample_env sample_field 5 (reread store_invalid (JStr ''2020-01-01'')) =
             (Inr (JDate 5 (Some 1577836800000)), 6)"
    by (simp add: cast_JStr)
  have d: "cast sample_env sample_field 5 (reread store_invalid (JStr ''soon'')) =
             (Inl (CastError ''date'' (JStr ''soon'') ''createdAt''), 6)"
    by (simp add: cast_JStr sample_env_def Number_str_def)
  have m: "cast sample_env sample_field 5 (reread store_moved (JDate 7 (Some 1000))) =
             (Inr (JDate 7 (Some 2000)), 5)"
    by (simp add: cast_JDate)
  have i1: "min_SchemaDate sample_env sample_field 0 JDateNow None =
     (Inr (), fst (snd (min_SchemaDate sample_env sample_field 0 JDateNow None)), 1)"
    by (simp add: min_SchemaDate_def sample_field_def new_SchemaDate_def Let_def)
  have lit: "call_validator sample_env sample_field store_invalid \<lparr>fn_id = 1, fn_kind = MinFn, fn_value = JDateNow\<rparr>
     1000 5 (JDate 0 (Some 2000)) = (Inr True, 5) \<and>
   call_validator sample_env sample_field store_invalid \<lparr>fn_id = 1, fn_kind = MinFn, fn_value = JDateNow\<rparr>
     3000 5 (JDate 0 (Some 2000)) = (Inr False, 5) \<and>
   call_validator sample_env sample_field store_invalid \<lparr>fn_id = 1, fn_kind = MinFn, fn_value = JStr ''2020-01-01''\<rparr>
     3000 5 (JDate 0 (Some 2000)) = (Inr False, 6) \<and>
   call_validator sample_env sample_field store_invalid \<lparr>fn_id = 1, fn_kind = MaxFn, fn_value = JStr ''2020-01-01''\<rparr>
     3000 5 (JDate 0 (Some 2000)) = (Inr True, 6)"
    using bound_validator_resolves_at_evaluation
         [where E = sample_env and self = sample_field and S = store_invalid and i = 1 and now = 1000 and h = 5
            and a = 0 and t = 2000 and x = "JStr ''2020-01-01''" and b = 5
            and bd = 1577836800000 and h' = 6]
       bound_validator_resolves_at_evaluation
         [where E = sample_env and self = sample_field and S = store_invalid and i = 1 and now = 3000 and h = 5
            and a = 0 and t = 2000 and x = "JStr ''2020-01-01''" and b = 5
            and bd = 1577836800000 and h' = 6]
       c
    by simp
  have moved: "call_validator sample_env sample_field store_moved \<lparr>fn_id = 1, fn_kind = MinFn, fn_value = JDate 7 (Some 1000)\<rparr>
     3000 5 (JDate 0 (Some 1500)) = (Inr False, 5)"
    using bound_validator_resolves_at_evaluation
         [where E = sample_env and self = sample_field and S = store_moved and i = 1 and now = 3000 and h = 5
            and a = 0 and t = 1500 and x = "JDate 7 (Some 1000)" and b = 7
            and bd = 2000 and h' = 5]
       m
    by simp
  have err: "call_validator sample_env sample_field store_invalid \<lparr>fn_id = 1, fn_kind = MinFn, fn_value = JStr ''soon''\<rparr>
     3000 5 (JDate 0 (Some 2000)) = (Inl (CastError ''date'' (JStr ''soon'') ''createdAt''), 6)"
    using bound_validator_resolves_at_evaluation
         [where E = sample_env and self = sample_field and S = store_invalid and i = 1 and now = 3000 and h = 5
            and a = 0 and t = 2000 and x = "JStr ''soon''"
            and e = "CastError ''date'' (JStr ''soon'') ''createdAt''" and h' = 6]
       d
    by simp
  have inst: "\<exists>j. minValidator (fst (snd (min_SchemaDate sample_env sample_field 0 JDateNow None))) =
     Some \<lparr>fn_id = j, fn_kind = MinFn, fn_value = JDateNow\<rparr>"
    using bound_validator_resolves_at_evaluation
         [where E = sample_env and this = sample_field and h = 0 and x = JDateNow and msg = None
            and this' = "fst (snd (min_SchemaDate sample_env sample_field 0 JDateNow None))" and h' = 1]
       i1
    by simp
  from lit moved err inst show ?thesis
    by (intro conjI) simp_all
qed

text \<open>
  C7. Every validator function in the chain of a field type reached from a new one by
  \<open>min\<close> and \<open>max\<close> calls returns true on the candidate null whenever its bound resolves
  at that call: the bound is \<open>Date.now\<close>, or \<open>cast\<close> returns on the bound as it reads
  then. That is so in particular while the bound reads as it did at installation. The
  function resolves the bound before it tests the candidate, so when \<open>cast\<close> throws on
  the bound, the function throws that error on null too.
\<close>

theorem bound_validator_accepts_null:
  assumes "do_calls E (new_SchemaDate key, h0) cs = (this, h)"
    and "v \<in> set (validators this)"
  shows "(fn_value (validator v) = JDateNow \<or>
          (\<exists>d h2. cast E this h1 (reread S (fn_value (validator v))) = (Inr d, h2)) \<longrightarrow>
            fst (call_validator E this S (validator v) now h1 JNull) = Inr True) \<and>
         (reread S (fn_value (validator v)) = fn_value (validator v) \<longrightarrow>
            fst (call_validator E this S (validator v) now h1 JNull) = Inr True) \<and>
         (fn_value (validator v) \<noteq> JDateNow \<longrightarrow>
          cast E this h1 (reread S (fn_value (validator v))) = (Inl e, h2) \<longrightarrow>
            call_validator E this S (validator v) now h1 JNull = (Inl e, h2))"
proof -
  let ?b = "reread S (fn_value (validator v))"
  have resolves: "?b = JDateNow \<or> (\<exists>d h2. cast E this h1 ?b = (Inr d, h2)) \<Longrightarrow>
      fst (call_validator E this S (validator v) now h1 JNull) = Inr True"
    by (cases "fn_kind (validator v)") (simp_all add: call_validator_def validator_fn_null)
  have ok: "bound_ok E (fn_value (validator v))"
    using assms by (blast intro: chain_inv_bound_ok reachable_inv)
  have unchanged: "?b = fn_value (validator v) \<longrightarrow>
      fst (call_validator E this S (validator v) now h1 JNull) = Inr True"
  proof
    assume same: "?b = fn_value (validator v)"
    from ok bound_ok_cast [of E "fn_value (validator v)" this h1]
    have "?b = JDateNow \<or> (\<exists>d h2. cast E this h1 ?b = (Inr d, h2))"
      unfolding same by blast
    then show "fst (call_validator E this S (validator v) now h1 JNull) = Inr True"
      by (rule resolves)
  qed
  have throws: "fn_value (validator v) \<noteq> JDateNow \<longrightarrow> cast E this h1 ?b = (Inl e, h2) \<longrightarrow>
      call_validator E this S (validator v) now h1 JNull = (Inl e, h2)"
    by (cases "fn_kind (validator v)") (simp_all add: call_validator_def validator_fn_bound_throws)
  from resolves unchanged throws show ?thesis
    by simp
qed

theorem bound_validator_accepts_null_witness:
  "fst (call_validator sample_env
          (fst (do_calls sample_env (new_SchemaDate ''createdAt'', 8) [CallMin (JDate 7 (Some 1000)) None]))
          store_moved \<lparr>fn_id = 8, fn_kind = MinFn, fn_value = JDate 7 (Some 1000)\<rparr> 5000 9 JNull) = Inr True"
proof -
  let ?st = "do_calls sample_env (new_SchemaDate ''createdAt'', 8) [CallMin (JDate 7 (Some 1000)) None]"
  let ?v = "\<lparr>validator = \<lparr>fn_id = 8, fn_kind = MinFn, fn_value = JDate 7 (Some 1000)\<rparr>,
             message = ''Path ({VALUE}) is before minimum allowed value ([a date]).'',
             type = ''min'', bound = JDate 7 (Some 1000)\<rparr>"
  have mem: "?v \<in> set (validators (fst ?st))"
    by (simp add: sample_run_date)
  have c: "cast sample_env (fst ?st) 9 (reread store_moved (JDate 7 (Some 1000))) =
             (Inr (JDate 7 (Some 2000)), 9)"
    by (simp add: cast_JDate)
  from bound_validator_accepts_null [OF prod.collapse [symmetric] mem,
         where S = store_moved and ?h1.0 = 9 and now = 5000] c
  show ?thesis by simp
qed

text \<open>
  Without the condition on the bound the statement fails: after \<open>min(d)\<close> with a valid
  Date \<open>d\<close> and then \<open>d.setTime(NaN)\<close>, the installed function throws a CastError on
  null.
\<close>

theorem bound_validator_accepts_null_counterexample:
  "\<lparr>validator = \<lparr>fn_id = 8, fn_kind = MinFn, fn_value = JDate 7 (Some 1000)\<rparr>,
     message = ''Path ({VALUE}) is before minimum allowed value ([a date]).'',
     type = ''min'', bound = JDate 7 (Some 1000)\<rparr>
     \<in> set (validators (fst (do_calls sample_env (new_SchemaDate ''createdAt'', 8)
                [CallMin (JDate 7 (Some 1000)) None]))) \<and>
   call_validator sample_env
     (fst (do_calls sample_env (new_SchemaDate ''createdAt'', 8) [CallMin (JDate 7 (Some 1000)) None]))
     store_invalid \<lparr>fn_id = 8, fn_kind = MinFn, fn_value = JDate 7 (Some 1000)\<rparr> 5000 9 JNull =
     (Inl (CastError ''date'' (JDate 7 None) ''createdAt''), 9)"
  by (simp add: sample_run_date call_validator_def minValidator_fn_def cast_JDate)




end
